theory Spec2Isabelle
  imports Main "HOL-Library.Sublist" "HOL-Library.AList"
begin

section \<open>JavaScript values and strings\<close>

text \<open>
  The values that cross the service boundary (pre-fetched tool data, tool-call arguments,
  JSON schemas) are JSON-like JavaScript values. An object is a plain object: it lists
  its own properties (a well-formed object has pairwise distinct keys), and it inherits
  the members of \<^verbatim>\<open>Object.prototype\<close>. \<open>JBuiltin n\<close> is the value of the member
  \<open>n\<close> of \<^verbatim>\<open>Object.prototype\<close>: a built-in function, or, for \<open>__proto__\<close>, the
  prototype object itself. Numbers are integers. A \<^typ>\<open>char\<close> stands for one UTF-16
  code unit below 256.
\<close>

datatype js_value =
    JUndefined
  | JNull
  | JBool bool
  | JNum int
  | JStr string
  | JArr "js_value list"
  | JObj "(string \<times> js_value) list"
  | JBuiltin string

text \<open>The names of the members that every plain object inherits.\<close>

definition object_members :: "string list" where
  "object_members =
     [''constructor'', ''__defineGetter__'', ''__defineSetter__'', ''hasOwnProperty'',
      ''__lookupGetter__'', ''__lookupSetter__'', ''isPrototypeOf'', ''propertyIsEnumerable'',
      ''toString'', ''valueOf'', ''__proto__'', ''toLocaleString'']"

text \<open>Decimal rendering of a non-negative integer, as a template literal prints it.\<close>

fun show_nat :: "nat \<Rightarrow> string" where
  "show_nat n =
     (if n < 10 then [char_of (48 + n)]
      else show_nat (n div 10) @ [char_of (48 + n mod 10)])"

declare show_nat.simps [simp del]

text \<open>\<^verbatim>\<open>xs.join(sep)\<close> on an array of strings.\<close>

fun join :: "string \<Rightarrow> string list \<Rightarrow> string" where
  "join sep [] = []"
| "join sep [x] = x"
| "join sep (x # y # ys) = x @ sep @ join sep (y # ys)"

text \<open>
  \<^verbatim>\<open>String.prototype.trim\<close>: white space and line terminators are removed from both
  ends. In the code-unit range of \<^typ>\<open>char\<close> these are TAB, LF, VT, FF, CR, SPACE
  and NBSP.
\<close>

definition is_js_space :: "char \<Rightarrow> bool" where
  "is_js_space c = (of_char c \<in> {9, 10, 11, 12, 13, 32, 160 :: nat})"

definition trim :: "string \<Rightarrow> string" where
  "trim s = rev (dropWhile is_js_space (rev (dropWhile is_js_space s)))"

section \<open>Request data (src/types/ai-sdk.types.ts)\<close>

datatype MessageType = USER | COPILOT

record ChatMessage =
  msg_type :: MessageType
  msg_text :: string

record ToolDefinition =
  name :: string
  description :: string
  parameters :: js_value

type_synonym ContextData = "(string \<times> js_value) list"

record SendMessageParams =
  userId :: string
  user_text :: string
  conversationHistory :: "ChatMessage list option"
  systemPrompt :: "string option"
  tools :: "ToolDefinition list option"
  contextData :: "ContextData option"

section \<open>Prompt assembly (streamMessage, lines 35-79)\<close>

datatype role = R_user | R_assistant | R_tool

datatype part =
    ToolCallPart (toolCallId: string) (toolName: string) (args: js_value)
  | ToolResultPart (toolCallId: string) (toolName: string) (result: js_value)

datatype content = Text string | Parts "part list"

datatype CoreMessage = CoreMessage (role: role) (content: content)

definition history_turn :: "ChatMessage \<Rightarrow> CoreMessage" where
  "history_turn msg =
     CoreMessage (if msg_type msg = USER then R_user else R_assistant) (Text (msg_text msg))"

definition pre_fetched_call :: "string \<times> js_value \<Rightarrow> part" where
  "pre_fetched_call e = ToolCallPart (''pre-fetched-'' @ fst e) (fst e) (JObj [])"

definition pre_fetched_result :: "string \<times> js_value \<Rightarrow> CoreMessage" where
  "pre_fetched_result e =
     CoreMessage R_tool (Parts [ToolResultPart (''pre-fetched-'' @ fst e) (fst e) (snd e)])"

text \<open>
  The message list handed to the provider: the mapped history, then the pushed user turn,
  then, only for a present context object with at least one key, the pushed assistant turn
  of tool calls and one pushed tool turn per entry.
\<close>

definition assembleMessages :: "SendMessageParams \<Rightarrow> CoreMessage list" where
  "assembleMessages params =
     (let history = (case conversationHistory params of None \<Rightarrow> [] | Some h \<Rightarrow> h);
          messages = map history_turn history;
          messages = messages @ [CoreMessage R_user (Text (user_text params))]
      in case contextData params of
           None \<Rightarrow> messages
         | Some cd \<Rightarrow>
             if length (map fst cd) > 0
             then (messages @ [CoreMessage R_assistant (Parts (map pre_fetched_call cd))])
                    @ map pre_fetched_result cd
             else messages)"

section \<open>Errors (src/errors/ai-sdk.error.ts)\<close>

text \<open>
  A thrown or rejected value is a native \<^verbatim>\<open>Error\<close> (message and stack), an
  \<^verbatim>\<open>AiSdkError\<close> (message, originalError, context) or any other value. Of a value
  that is no \<^verbatim>\<open>Error\<close> the model keeps what \<^verbatim>\<open>String()\<close> makes of it: \<open>Some s\<close>
  when the conversion gives the string \<open>s\<close>, \<open>None\<close> when the conversion itself raises
  (an object with no usable \<open>toString\<close> and \<open>valueOf\<close>). The stack an
  \<^verbatim>\<open>AiSdkError\<close> assembles for itself is written in the constructor and never read
  back where it matters, so it is not a field here. \<open>None\<close> is an omitted constructor
  argument. Object identity is rendered by equality of values.
\<close>

datatype thrown =
    NativeError (message: string) (stack: "string option")
  | AiSdkError (message: string) (originalError: "thrown option") (err_context: "js_value option")
  | NonError "string option"

text \<open>
  A \<^verbatim>\<open>TypeError\<close> raised by the runtime (a property read on null or undefined, a call
  of something that is no function, a failed conversion to a string). Its message text and
  stack are engine-specific and are not reproduced.
\<close>

definition TypeError :: thrown where
  "TypeError = NativeError ''TypeError'' None"

definition isAiSdkError :: "thrown \<Rightarrow> bool" where
  "isAiSdkError error = (case error of AiSdkError m orig ctx \<Rightarrow> True | _ \<Rightarrow> False)"

definition instanceof_Error :: "thrown \<Rightarrow> bool" where
  "instanceof_Error error = (case error of NonError v \<Rightarrow> False | _ \<Rightarrow> True)"

text \<open>
  \<^verbatim>\<open>AiSdkError.fromError\<close>: \<open>Inr\<close> the classified error it returns, \<open>Inl\<close> the
  error that \<^verbatim>\<open>String(error)\<close> raises.
\<close>

definition fromError :: "thrown \<Rightarrow> js_value option \<Rightarrow> thrown + thrown" where
  "fromError error ctx =
     (if isAiSdkError error then Inr error
      else if instanceof_Error error then Inr (AiSdkError (message error) (Some error) ctx)
      else (case error of
              NonError (Some s) \<Rightarrow> Inr (AiSdkError s (Some error) ctx)
            | _ \<Rightarrow> Inl TypeError))"

text \<open>What \<^verbatim>\<open>throw AiSdkError.fromError(error, ctx)\<close> raises.\<close>

definition throw_fromError :: "thrown \<Rightarrow> js_value option \<Rightarrow> thrown" where
  "throw_fromError error ctx = (case fromError error ctx of Inr classified \<Rightarrow> classified | Inl e \<Rightarrow> e)"

section \<open>Reading JavaScript values\<close>

fun truthy :: "js_value \<Rightarrow> bool" where
  "truthy JUndefined = False"
| "truthy JNull = False"
| "truthy (JBool b) = b"
| "truthy (JNum i) = (i \<noteq> 0)"
| "truthy (JStr s) = (s \<noteq> [])"
| "truthy (JArr xs) = True"
| "truthy (JObj fs) = True"
| "truthy (JBuiltin n) = True"

text \<open>\<^verbatim>\<open>typeof v === "object"\<close>.\<close>

fun typeof_object :: "js_value \<Rightarrow> bool" where
  "typeof_object JNull = True"
| "typeof_object (JArr xs) = True"
| "typeof_object (JObj fs) = True"
| "typeof_object (JBuiltin n) = (n = ''__proto__'')"
| "typeof_object v = False"

text \<open>
  \<^verbatim>\<open>v[k]\<close> on a value that is neither null nor undefined. On a plain object, for
  any key: the own property if there is one, otherwise the inherited member if the key
  names one, otherwise undefined. On the prototype object itself, for any key: its member
  of that name (its own prototype is null). On every other value the code reads only the
  keys \<open>type\<close>, \<open>properties\<close>, \<open>required\<close> and \<open>items\<close>, which no array, string,
  number, boolean or function has.
\<close>

fun js_get :: "js_value \<Rightarrow> string \<Rightarrow> js_value" where
  "js_get (JObj fs) k =
     (case map_of fs k of
        Some v \<Rightarrow> v
      | None \<Rightarrow> if k \<in> set object_members then JBuiltin k else JUndefined)"
| "js_get (JBuiltin n) k =
     (if n = ''__proto__''
      then (if k = ''__proto__'' then JNull
            else if k \<in> set object_members then JBuiltin k else JUndefined)
      else JUndefined)"
| "js_get v k = JUndefined"

text \<open>\<^verbatim>\<open>v.k\<close>: a property read on null or undefined raises.\<close>

definition js_member :: "js_value \<Rightarrow> string \<Rightarrow> thrown + js_value" where
  "js_member v k = (if v = JUndefined \<or> v = JNull then Inl TypeError else Inr (js_get v k))"

text \<open>\<^verbatim>\<open>Object.entries(v)\<close> for a truthy value.\<close>

fun object_entries :: "js_value \<Rightarrow> (string \<times> js_value) list" where
  "object_entries (JObj fs) = fs"
| "object_entries (JArr xs) = zip (map show_nat [0..<length xs]) xs"
| "object_entries (JStr s) = zip (map show_nat [0..<length s]) (map (\<lambda>c. JStr [c]) s)"
| "object_entries v = []"

text \<open>
  \<^verbatim>\<open>required.includes(key)\<close> for a truthy \<open>required\<close> or the default \<open>[]\<close>: membership
  in an array, substring search in a string; any other value has no such method.
\<close>

fun js_includes :: "js_value \<Rightarrow> string \<Rightarrow> thrown + bool" where
  "js_includes (JArr xs) key = Inr (JStr key \<in> set xs)"
| "js_includes (JStr s) key = Inr (sublist key s)"
| "js_includes v key = Inl TypeError"

section \<open>The validator library (zod), as far as the converter uses it\<close>

text \<open>
  The external validator library is represented by the schemas the converter can build
  and by the success of \<^verbatim>\<open>safeParse\<close> on them: a primitive schema accepts exactly the
  values of its runtime type, \<open>unknown\<close> accepts everything (undefined included),
  \<open>array\<close> accepts arrays whose elements are all accepted, \<open>optional\<close> adds undefined,
  and a passthrough object accepts an object that is no array whose value under every
  key of the shape is accepted, whatever other keys it has. The value under a key is
  what the property read gives: an own property, an inherited member, or undefined.
  Numbers are JSON numbers: there is no NaN among the values.
\<close>

datatype zod_type = ZString | ZNumber | ZBoolean | ZUnknown | ZArray zod_type | ZOptional zod_type

datatype zod_object = ZObjectPassthrough "(string \<times> zod_type) list"

fun accepts :: "zod_type \<Rightarrow> js_value \<Rightarrow> bool" where
  "accepts ZString v = (case v of JStr s \<Rightarrow> True | _ \<Rightarrow> False)"
| "accepts ZNumber v = (case v of JNum i \<Rightarrow> True | _ \<Rightarrow> False)"
| "accepts ZBoolean v = (case v of JBool b \<Rightarrow> True | _ \<Rightarrow> False)"
| "accepts ZUnknown v = True"
| "accepts (ZArray t) v = (case v of JArr xs \<Rightarrow> list_all (accepts t) xs | _ \<Rightarrow> False)"
| "accepts (ZOptional t) v = (v = JUndefined \<or> accepts t v)"

fun safeParse_success :: "zod_object \<Rightarrow> js_value \<Rightarrow> bool" where
  "safeParse_success (ZObjectPassthrough shape) v =
     (case v of
        JObj fs \<Rightarrow> list_all (\<lambda>(k, t). accepts t (js_get v k)) shape
      | JBuiltin n \<Rightarrow> n = ''__proto__'' \<and> list_all (\<lambda>(k, t). accepts t (js_get v k)) shape
      | _ \<Rightarrow> False)"

section \<open>jsonSchemaToZod (src/utils/json-schema-to-zod.ts)\<close>

text \<open>The \<^verbatim>\<open>switch\<close> on the type of one property schema.\<close>

definition prop_zod_type :: "js_value \<Rightarrow> thrown + zod_type" where
  "prop_zod_type propSchema =
     (case js_member propSchema ''type'' of
        Inl e \<Rightarrow> Inl e
      | Inr ty \<Rightarrow>
          Inr (if ty = JStr ''string'' then ZString
               else if ty = JStr ''number'' then ZNumber
               else if ty = JStr ''boolean'' then ZBoolean
               else if ty = JStr ''array'' then
                 (let itemsSchema = js_get propSchema ''items'';
                      itemsType = (if itemsSchema = JUndefined \<or> itemsSchema = JNull
                                   then JUndefined else js_get itemsSchema ''type'')
                  in if itemsType = JStr ''string'' then ZArray ZString
                     else if itemsType = JStr ''number'' then ZArray ZNumber
                     else ZArray ZUnknown)
               else ZUnknown))"

text \<open>
  The loop over the property entries, assigning into \<open>zodShape\<close>. The assignment
  \<^verbatim>\<open>zodShape[key] = zodType\<close> creates or overwrites an own property, except for the key
  \<open>__proto__\<close>: that assignment goes to the inherited setter, which changes the
  prototype of \<open>zodShape\<close> and adds no key.
\<close>

fun zodShape_loop ::
  "js_value \<Rightarrow> (string \<times> js_value) list \<Rightarrow> (string \<times> zod_type) list
     \<Rightarrow> thrown + (string \<times> zod_type) list" where
  "zodShape_loop required [] zodShape = Inr zodShape"
| "zodShape_loop required ((key, propSchema) # rest) zodShape =
     (case prop_zod_type propSchema of
        Inl e \<Rightarrow> Inl e
      | Inr zodType \<Rightarrow>
          (case js_includes required key of
             Inl e \<Rightarrow> Inl e
           | Inr inc \<Rightarrow>
               zodShape_loop required rest
                 (if key = ''__proto__'' then zodShape
                  else AList.update key (if \<not> inc then ZOptional zodType else zodType)
                         zodShape)))"

definition jsonSchemaToZod :: "js_value \<Rightarrow> thrown + zod_object" where
  "jsonSchemaToZod schema =
     (if \<not> truthy schema \<or> \<not> typeof_object schema then Inr (ZObjectPassthrough [])
      else if js_get schema ''type'' = JStr ''object'' \<and> truthy (js_get schema ''properties'')
      then
        (let properties = js_get schema ''properties'';
             required = (if truthy (js_get schema ''required'')
                         then js_get schema ''required'' else JArr [])
         in case zodShape_loop required (object_entries properties) [] of
              Inl e \<Rightarrow> Inl e
            | Inr zodShape \<Rightarrow> Inr (ZObjectPassthrough zodShape))
      else Inr (ZObjectPassthrough []))"

section \<open>Tool registration (streamMessage, lines 87-113)\<close>

text \<open>
  The closure \<^verbatim>\<open>execute\<close> holds the variable \<^verbatim>\<open>contextData\<close>: undefined, or a
  reference to the caller's object, which it reads at each call. So a call has, beside
  its arguments, the properties that object has at the time of the call: they are the
  first argument of \<open>execute\<close>, and they are not looked at when the request carried no
  context object.
\<close>

record CallableTool =
  tool_description :: string
  tool_parameters :: zod_object
  execute :: "ContextData \<Rightarrow> js_value \<Rightarrow> js_value"

text \<open>The body of \<^verbatim>\<open>execute\<close>; the arguments of the call are not looked at.\<close>

definition execute_body ::
  "ContextData option \<Rightarrow> string \<Rightarrow> ContextData \<Rightarrow> js_value \<Rightarrow> js_value" where
  "execute_body ctxData tool_name now call_args =
     (let toolData = (case ctxData of None \<Rightarrow> JUndefined
                      | Some cd \<Rightarrow> js_get (JObj now) tool_name)
      in if toolData \<noteq> JNull \<and> toolData \<noteq> JUndefined then toolData
         else JObj [(''error'', JStr ''Data should be pre-fetched by Chat Service'')])"

fun tool_entries ::
  "ContextData option \<Rightarrow> ToolDefinition list \<Rightarrow> thrown + (string \<times> CallableTool) list" where
  "tool_entries ctxData [] = Inr []"
| "tool_entries ctxData (toolDef # rest) =
     (case jsonSchemaToZod (parameters toolDef) of
        Inl e \<Rightarrow> Inl e
      | Inr zodSchema \<Rightarrow>
          (case tool_entries ctxData rest of
             Inl e \<Rightarrow> Inl e
           | Inr es \<Rightarrow>
               Inr ((name toolDef,
                     \<lparr>tool_description = description toolDef,
                      tool_parameters = zodSchema,
                      execute = execute_body ctxData (name toolDef)\<rparr>) # es)))"

text \<open>
  \<^verbatim>\<open>Object.fromEntries\<close>: each pair defines an own property in turn, a later pair
  replacing the value of an earlier one with the same key. The list keeps the order of
  first definition; the enumeration order of the object differs from it only in that
  integer-like keys come first, and nothing here depends on the order.
\<close>

definition fromEntries :: "(string \<times> 'v) list \<Rightarrow> (string \<times> 'v) list" where
  "fromEntries es = fold (\<lambda>(k, v) obj. AList.update k v obj) es []"

definition aiSdkTools ::
  "ToolDefinition list option \<Rightarrow> ContextData option
     \<Rightarrow> thrown + (string \<times> CallableTool) list option" where
  "aiSdkTools tls ctxData =
     (case tls of
        None \<Rightarrow> Inr None
      | Some ds \<Rightarrow>
          (case tool_entries ctxData ds of
             Inl e \<Rightarrow> Inl e
           | Inr es \<Rightarrow> Inr (Some (fromEntries es))))"

section \<open>The provider's result handle\<close>

text \<open>
  An asynchronous iterable is the finite list of what its iteration delivers: items, and
  possibly a raise, which ends the iteration. The richer channel delivers parts tagged
  \<open>text-delta\<close>, \<open>error\<close> or anything else.
\<close>

datatype 'a step = Yield 'a | Throw thrown

datatype stream_part = TextDelta string | ErrorPart thrown | OtherPart string

text \<open>
  A settleable value resolves or rejects at some time, or stays pending for ever. Times
  are milliseconds counted from the moment the settlement tier is entered; a value
  settled earlier has time 0. \<open>None\<close> is a resolved \<open>undefined\<close>. The property
  \<^verbatim>\<open>text\<close> is read up to twice, and a getter may hand out a different promise at each
  read: \<open>text_reads r i\<close> is what read number \<open>i\<close> returns.
\<close>

datatype 'a promise = Resolves nat 'a | Rejects nat thrown | Pending

record StreamResult =
  textStream :: "string step list"
  fullStream :: "stream_part step list"
  text_reads :: "nat \<Rightarrow> string option promise"
  toolCalls :: "js_value list option promise"
  finishReason :: "string option promise"

record 'cfg StreamTextRequest =
  req_settings :: 'cfg
  req_system :: "string option"
  req_messages :: "CoreMessage list"
  req_tools :: "(string \<times> CallableTool) list option"
  req_maxSteps :: nat

text \<open>What an \<^verbatim>\<open>await\<close> gives, with the clock after it.\<close>

datatype 'a awaited = Value 'a nat | Raised thrown nat | Never

definition await :: "'a promise \<Rightarrow> nat \<Rightarrow> 'a awaited" where
  "await p now =
     (case p of
        Resolves t v \<Rightarrow> Value v (max now t)
      | Rejects t e \<Rightarrow> Raised e (max now t)
      | Pending \<Rightarrow> Never)"

text \<open>
  \<^verbatim>\<open>await Promise.race([p, timer])\<close>, the timer rejecting with a fresh
  \<^verbatim>\<open>AiSdkError(msg)\<close> after \<open>ms\<close> milliseconds. The value wins when it settles
  strictly before the timer fires. When both fall on the same millisecond the order is
  the scheduler's; here the timer wins, and no statement below depends on that case.
\<close>

definition race :: "'a promise \<Rightarrow> string \<Rightarrow> nat \<Rightarrow> nat \<Rightarrow> 'a awaited" where
  "race p msg ms now =
     (let timeout = Raised (AiSdkError msg None None) (now + ms)
      in case p of
           Resolves t v \<Rightarrow> if t < now + ms then Value v (max now t) else timeout
         | Rejects t e \<Rightarrow> if t < now + ms then Raised e (max now t) else timeout
         | Pending \<Rightarrow> timeout)"

section \<open>streamMessage (src/main/ai-sdk.service.ts)\<close>

text \<open>
  A run of the generator: the fragments it yields, how it ends, how many parts of the
  richer channel it has taken, and the time spent in the settlement tier.
\<close>

datatype ending = Done | Raises thrown | Hangs

record Outcome =
  yielded :: "string list"
  ending :: ending
  parts_taken :: nat
  elapsed :: nat

text \<open>The loop over \<^verbatim>\<open>result.textStream\<close>.\<close>

fun read_textStream :: "string step list \<Rightarrow> string list \<times> thrown option" where
  "read_textStream [] = ([], None)"
| "read_textStream (Throw e # rest) = ([], Some e)"
| "read_textStream (Yield chunk # rest) =
     (case read_textStream rest of (ys, e) \<Rightarrow> (chunk # ys, e))"

text \<open>
  The loop over \<^verbatim>\<open>result.fullStream\<close>: it ends when the channel is exhausted, at the
  \<^verbatim>\<open>break\<close> after an error part (whose classified error is remembered), or when the
  iteration, or the classification of an error part, raises.
\<close>

datatype loop_end = Exhausted | Broke thrown | Threw thrown

fun read_fullStream :: "stream_part step list \<Rightarrow> string list \<times> nat \<times> loop_end" where
  "read_fullStream [] = ([], 0, Exhausted)"
| "read_fullStream (Throw e # rest) = ([], 0, Threw e)"
| "read_fullStream (Yield (ErrorPart err) # rest) =
     (case fromError err None of
        Inr streamError \<Rightarrow> ([], 1, Broke streamError)
      | Inl e \<Rightarrow> ([], 1, Threw e))"
| "read_fullStream (Yield (TextDelta textDelta) # rest) =
     (case read_fullStream rest of (ys, n, e) \<Rightarrow> (textDelta # ys, Suc n, e))"
| "read_fullStream (Yield (OtherPart ty) # rest) =
     (case read_fullStream rest of (ys, n, e) \<Rightarrow> (ys, Suc n, e))"

text \<open>\<^verbatim>\<open>t && t.trim().length\<close>: the text when it is usable.\<close>

definition usable_text :: "string option \<Rightarrow> string option" where
  "usable_text t =
     (case t of
        None \<Rightarrow> None
      | Some s \<Rightarrow> if s \<noteq> [] \<and> length (trim s) \<noteq> 0 then Some s else None)"

text \<open>\<^verbatim>\<open>finishReason || "unknown"\<close>.\<close>

definition or_unknown :: "string option \<Rightarrow> string" where
  "or_unknown fr = (case fr of None \<Rightarrow> ''unknown'' | Some s \<Rightarrow> if s \<noteq> [] then s else ''unknown'')"

text \<open>\<^verbatim>\<open>xs?.length || 0\<close>.\<close>

definition length_or_0 :: "'a list option \<Rightarrow> nat" where
  "length_or_0 xs = (case xs of None \<Rightarrow> 0 | Some ys \<Rightarrow> length ys)"

definition contextInfo :: "SendMessageParams \<Rightarrow> CoreMessage list \<Rightarrow> string" where
  "contextInfo params msgs =
     ''Messages: '' @ show_nat (length msgs) @ '', Tools: '' @ show_nat (length_or_0 (tools params))
       @ '', ContextData keys: ''
       @ (case contextData params of None \<Rightarrow> ''none'' | Some cd \<Rightarrow> join '', '' (map fst cd))"

definition no_text_message :: "nat \<Rightarrow> string option \<Rightarrow> string" where
  "no_text_message n fr =
     ''AI SDK called tools but did not generate text. ToolCalls: '' @ show_nat n
       @ '', FinishReason: '' @ or_unknown fr"

definition nothing_message ::
  "SendMessageParams \<Rightarrow> CoreMessage list \<Rightarrow> string option \<Rightarrow> js_value list option \<Rightarrow> string" where
  "nothing_message params msgs fr finalToolCalls =
     ''AI SDK stream completed without generating any chunks or text. '' @ contextInfo params msgs
       @ '', FinishReason: '' @ or_unknown fr
       @ '', ToolCalls: '' @ show_nat (length_or_0 finalToolCalls)"

text \<open>
  A \<^verbatim>\<open>try\<close> block's run is the fragments it yields and how it ends; a \<^verbatim>\<open>catch\<close>
  clause that throws a new error replaces the raised one.
\<close>

definition catch_rethrow ::
  "(thrown \<Rightarrow> thrown) \<Rightarrow> string list \<times> unit awaited \<Rightarrow> string list \<times> unit awaited" where
  "catch_rethrow handler run =
     (case run of
        (ys, Raised e t) \<Rightarrow> (ys, Raised (handler e) t)
      | _ \<Rightarrow> run)"

text \<open>Lines 203-221: the grace period, then the second read of the text.\<close>

definition delayed_try ::
  "StreamResult \<Rightarrow> nat \<Rightarrow> string option \<Rightarrow> nat \<Rightarrow> string list \<times> unit awaited" where
  "delayed_try r n fr now =
     (case await (text_reads r 1) now of
        Never \<Rightarrow> ([], Never)
      | Raised e t \<Rightarrow> ([], Raised e t)
      | Value delayedText t \<Rightarrow>
          (case usable_text delayedText of
             Some s \<Rightarrow> ([s], Value () t)
           | None \<Rightarrow> ([], Raised (AiSdkError (no_text_message n fr) None None) t)))"

definition delayed_catch :: "nat \<Rightarrow> string option \<Rightarrow> thrown \<Rightarrow> thrown" where
  "delayed_catch n fr delayedError =
     AiSdkError
       (no_text_message n fr @ '', Error: ''
          @ (if instanceof_Error delayedError then message delayedError else ''Unknown''))
       (Some delayedError) None"

text \<open>Lines 163-225: the three races and the branches on their values.\<close>

definition settlement_try ::
  "SendMessageParams \<Rightarrow> CoreMessage list \<Rightarrow> StreamResult \<Rightarrow> string list \<times> unit awaited" where
  "settlement_try params msgs r =
     (case race (finishReason r) ''Timeout waiting for result.finishReason'' 5000 0 of
        Never \<Rightarrow> ([], Never)
      | Raised e t \<Rightarrow> ([], Raised e t)
      | Value fr t1 \<Rightarrow>
     (case race (text_reads r 0) ''Timeout waiting for result.text'' 30000 t1 of
        Never \<Rightarrow> ([], Never)
      | Raised e t \<Rightarrow> ([], Raised e t)
      | Value finalText t2 \<Rightarrow>
     (case race (toolCalls r) ''Timeout waiting for result.toolCalls'' 30000 t2 of
        Never \<Rightarrow> ([], Never)
      | Raised e t \<Rightarrow> ([], Raised e t)
      | Value finalToolCalls t3 \<Rightarrow>
          (case usable_text finalText of
             Some s \<Rightarrow> ([s], Value () t3)
           | None \<Rightarrow>
               if length_or_0 finalToolCalls \<noteq> 0
               then catch_rethrow (delayed_catch (length_or_0 finalToolCalls) fr)
                      (delayed_try r (length_or_0 finalToolCalls) fr (t3 + 1000))
               else ([], Raised (AiSdkError (nothing_message params msgs fr finalToolCalls)
                                   None None) t3)))))"

definition result_catch :: "SendMessageParams \<Rightarrow> CoreMessage list \<Rightarrow> thrown \<Rightarrow> thrown" where
  "result_catch params msgs resultError =
     AiSdkError
       (''AI SDK stream completed without generating any chunks. '' @ contextInfo params msgs
          @ ''. Error getting final result: ''
          @ (if instanceof_Error resultError then message resultError else ''Unknown error''))
       (Some resultError) None"

text \<open>
  Lines 130-233, after the provider has answered: the three tiers in order. An exception
  that leaves them is not yet the one the caller sees.
\<close>

definition stream_tiers :: "SendMessageParams \<Rightarrow> CoreMessage list \<Rightarrow> StreamResult \<Rightarrow> Outcome" where
  "stream_tiers params msgs r =
     (case read_textStream (textStream r) of
        (ys, Some e) \<Rightarrow> \<lparr>yielded = ys, ending = Raises e, parts_taken = 0, elapsed = 0\<rparr>
      | (ys, None) \<Rightarrow>
          if length ys \<noteq> 0
          then \<lparr>yielded = ys, ending = Done, parts_taken = 0, elapsed = 0\<rparr>
          else
            (case read_fullStream (fullStream r) of
               (ds, n, Threw e) \<Rightarrow>
                 \<lparr>yielded = ds, ending = Raises e, parts_taken = n, elapsed = 0\<rparr>
             | (ds, n, Broke streamError) \<Rightarrow>
                 \<lparr>yielded = ds, ending = Raises (throw_fromError streamError None),
                  parts_taken = n, elapsed = 0\<rparr>
             | (ds, n, Exhausted) \<Rightarrow>
                 if length ds \<noteq> 0
                 then \<lparr>yielded = ds, ending = Done, parts_taken = n, elapsed = 0\<rparr>
                 else
                   (case catch_rethrow (result_catch params msgs) (settlement_try params msgs r) of
                      (fs, Value u t) \<Rightarrow>
                        \<lparr>yielded = fs, ending = Done, parts_taken = n, elapsed = t\<rparr>
                    | (fs, Raised e t) \<Rightarrow>
                        \<lparr>yielded = fs, ending = Raises e, parts_taken = n, elapsed = t\<rparr>
                    | (fs, Never) \<Rightarrow>
                        \<lparr>yielded = fs, ending = Hangs, parts_taken = n, elapsed = 0\<rparr>)))"

text \<open>
  Lines 234-240: the outermost handler, and what leaves it: the classified error, or the
  error raised inside \<open>fromError\<close>. For an \<^verbatim>\<open>AiSdkError\<close> the annotation built
  from its stack is discarded by \<open>fromError\<close>, which returns the error itself; for any
  other value the annotation becomes the context of the new error.
\<close>

definition outer_catch :: "SendMessageParams \<Rightarrow> CoreMessage list \<Rightarrow> thrown \<Rightarrow> thrown" where
  "outer_catch params msgs error =
     (if isAiSdkError error then throw_fromError error None
      else
        let errorStack = (case error of NativeError m st \<Rightarrow> st | _ \<Rightarrow> None);
            fullMessage = ''AI SDK stream error. '' @ contextInfo params msgs @ ''. ''
                            @ (case errorStack of None \<Rightarrow> [] | Some st \<Rightarrow> st)
        in throw_fromError error (Some (JStr fullMessage)))"

definition streamMessage ::
  "'cfg \<Rightarrow> ('cfg StreamTextRequest \<Rightarrow> thrown + StreamResult) \<Rightarrow> SendMessageParams \<Rightarrow> Outcome" where
  "streamMessage config streamText params =
     (let msgs = assembleMessages params
      in case aiSdkTools (tools params) (contextData params) of
           Inl e \<Rightarrow> \<lparr>yielded = [], ending = Raises e, parts_taken = 0, elapsed = 0\<rparr>
         | Inr tls \<Rightarrow>
             (case streamText \<lparr>req_settings = config, req_system = systemPrompt params,
                               req_messages = msgs, req_tools = tls, req_maxSteps = 5\<rparr> of
                Inl e \<Rightarrow>
                  \<lparr>yielded = [], ending = Raises (outer_catch params msgs e),
                   parts_taken = 0, elapsed = 0\<rparr>
              | Inr r \<Rightarrow>
                  (let run = stream_tiers params msgs r
                   in case ending run of
                        Raises e \<Rightarrow> run\<lparr>ending := Raises (outer_catch params msgs e)\<rparr>
                      | _ \<Rightarrow> run)))"

section \<open>The converter's contract, in the words of the specification\<close>

text \<open>
  The following definitions do not come from the code. They spell out the
  specification's description of the validators that \<open>jsonSchemaToZod\<close> produces, to
  be compared with what the code builds.

  A property declared with one of the types string, number, boolean, array:
\<close>

definition spec_typed :: "js_value \<Rightarrow> bool" where
  "spec_typed p =
     (js_get p ''type'' \<in> {JStr ''string'', JStr ''number'', JStr ''boolean'', JStr ''array''})"

definition spec_required :: "js_value \<Rightarrow> string \<Rightarrow> bool" where
  "spec_required schema k =
     (case js_get schema ''required'' of JArr xs \<Rightarrow> JStr k \<in> set xs | _ \<Rightarrow> False)"

text \<open>
  An object-shaped schema: an object whose \<open>type\<close> is \<open>object\<close>, with an object of
  property schemas and a \<open>required\<close> entry that is absent or a list. The schemas the
  amended statement is about are well formed beyond that: no property schema is null or
  undefined, no declared name is the name of a member that objects inherit, and every
  required property is declared with one of the four types.
\<close>

definition spec_object_shaped :: "js_value \<Rightarrow> bool" where
  "spec_object_shaped schema =
     (case schema of
        JObj fs \<Rightarrow>
          js_get schema ''type'' = JStr ''object''
          \<and> (case js_get schema ''properties'' of
                JObj ps \<Rightarrow>
                  distinct (map fst ps)
                  \<and> list_all (\<lambda>(k, p). p \<noteq> JNull \<and> p \<noteq> JUndefined
                                 \<and> k \<notin> set object_members
                                 \<and> (spec_required schema k \<longrightarrow> spec_typed p)) ps
              | _ \<Rightarrow> False)
          \<and> (case js_get schema ''required'' of
                JUndefined \<Rightarrow> True | JArr xs \<Rightarrow> True | _ \<Rightarrow> False)
      | _ \<Rightarrow> False)"

text \<open>
  Whether a runtime value has the declared type of a property. For an array the declared
  type of the items counts when it is string or number.
\<close>

definition spec_item_matches :: "js_value \<Rightarrow> js_value \<Rightarrow> bool" where
  "spec_item_matches items v =
     (if js_get items ''type'' = JStr ''string'' then (case v of JStr s \<Rightarrow> True | _ \<Rightarrow> False)
      else if js_get items ''type'' = JStr ''number'' then (case v of JNum i \<Rightarrow> True | _ \<Rightarrow> False)
      else True)"

definition spec_type_matches :: "js_value \<Rightarrow> js_value \<Rightarrow> bool" where
  "spec_type_matches p v =
     (if js_get p ''type'' = JStr ''string'' then (case v of JStr s \<Rightarrow> True | _ \<Rightarrow> False)
      else if js_get p ''type'' = JStr ''number'' then (case v of JNum i \<Rightarrow> True | _ \<Rightarrow> False)
      else if js_get p ''type'' = JStr ''boolean'' then (case v of JBool b \<Rightarrow> True | _ \<Rightarrow> False)
      else if js_get p ''type'' = JStr ''array''
      then (case v of JArr xs \<Rightarrow> list_all (spec_item_matches (js_get p ''items'')) xs
            | _ \<Rightarrow> False)
      else True)"

text \<open>
  The value an object holds under a key as its own property, undefined when it has no
  such property. A property is present when this is something other than undefined,
  and missing otherwise.
\<close>

definition own_get :: "(string \<times> js_value) list \<Rightarrow> string \<Rightarrow> js_value" where
  "own_get fs k = (case map_of fs k of None \<Rightarrow> JUndefined | Some v \<Rightarrow> v)"

text \<open>
  The rejection condition: some declared property of one of the four types is present
  with a value of another type, or some required declared property is missing.
\<close>

definition spec_rejects :: "js_value \<Rightarrow> (string \<times> js_value) list \<Rightarrow> bool" where
  "spec_rejects schema fs =
     list_ex (\<lambda>(k, p). (spec_typed p \<and> own_get fs k \<noteq> JUndefined
                          \<and> \<not> spec_type_matches p (own_get fs k))
                       \<or> (spec_required schema k \<and> own_get fs k = JUndefined))
       (object_entries (js_get schema ''properties''))"

section \<open>Example schemas\<close>

definition ex_null_property :: js_value where
  "ex_null_property =
     JObj [(''type'', JStr ''object''), (''properties'', JObj [(''a'', JNull)])]"

definition ex_proto_property :: js_value where
  "ex_proto_property =
     JObj [(''type'', JStr ''object''),
           (''properties'', JObj [(''__proto__'', JObj [(''type'', JStr ''string'')])]),
           (''required'', JArr [JStr ''__proto__''])]"

definition ex_person :: js_value where
  "ex_person =
     JObj [(''type'', JStr ''object''),
           (''properties'',
              JObj [(''name'', JObj [(''type'', JStr ''string'')]),
                    (''age'', JObj [(''type'', JStr ''number'')]),
                    (''tags'', JObj [(''type'', JStr ''array''),
                                     (''items'', JObj [(''type'', JStr ''string'')])])]),
           (''required'', JArr [JStr ''name''])]"

section \<open>Example requests\<close>

definition ex_params :: SendMessageParams where
  "ex_params =
     \<lparr>userId = ''u'', user_text = ''hi'',
      conversationHistory =
        Some [\<lparr>msg_type = USER, msg_text = ''a''\<rparr>, \<lparr>msg_type = COPILOT, msg_text = ''b''\<rparr>],
      systemPrompt = None, tools = None,
      contextData = Some [(''toolA'', JObj [(''x'', JNum 1)])]\<rparr>"

definition ex_schema :: js_value where
  "ex_schema = JObj [(''type'', JStr ''object''),
                     (''properties'', JObj [(''q'', JObj [(''type'', JStr ''string'')])]),
                     (''required'', JArr [JStr ''q''])]"

definition ex_tools :: "ToolDefinition list" where
  "ex_tools = [\<lparr>name = ''getPrice'', description = ''first'', parameters = JUndefined\<rparr>,
               \<lparr>name = ''getNews'', description = ''news'', parameters = ex_schema\<rparr>,
               \<lparr>name = ''getPrice'', description = ''second'', parameters = JNull\<rparr>]"

definition ex_cd :: "ContextData option" where
  "ex_cd = Some [(''getPrice'', JNum 42), (''getNews'', JNull)]"

definition ex_registry :: "(string \<times> CallableTool) list" where
  "ex_registry =
     [(''getPrice'', \<lparr>tool_description = ''second'', tool_parameters = ZObjectPassthrough [],
                      execute = execute_body ex_cd ''getPrice''\<rparr>),
      (''getNews'', \<lparr>tool_description = ''news'',
                     tool_parameters = ZObjectPassthrough [(''q'', ZString)],
                     execute = execute_body ex_cd ''getNews''\<rparr>)]"

text \<open>
  The handle the provider returns for a request, if the tool set is built and the
  provider call itself does not raise.
\<close>

definition provider_result ::
  "'cfg \<Rightarrow> ('cfg StreamTextRequest \<Rightarrow> thrown + StreamResult) \<Rightarrow> SendMessageParams
     \<Rightarrow> StreamResult option" where
  "provider_result config streamText params =
     (case aiSdkTools (tools params) (contextData params) of
        Inl e \<Rightarrow> None
      | Inr tls \<Rightarrow>
          (case streamText \<lparr>req_settings = config, req_system = systemPrompt params,
                            req_messages = assembleMessages params, req_tools = tls,
                            req_maxSteps = 5\<rparr> of
             Inl e \<Rightarrow> None
           | Inr r \<Rightarrow> Some r))"

text \<open>A part of the richer channel that is neither a text delta nor an error.\<close>

fun is_other :: "stream_part step \<Rightarrow> bool" where
  "is_other (Yield (OtherPart ty)) = True"
| "is_other p = False"


definition ex_plain :: SendMessageParams where
  "ex_plain = \<lparr>userId = ''u'', user_text = ''hi'', conversationHistory = None,
               systemPrompt = None, tools = None, contextData = None\<rparr>"

definition ex_handle :: StreamResult where
  "ex_handle = \<lparr>textStream = [], fullStream = [],
                text_reads = (\<lambda>i. Resolves 0 (Some [])),
                toolCalls = Resolves 0 (Some []),
                finishReason = Resolves 0 (Some ''stop'')\<rparr>"

text \<open>A provider that answers every request with the same handle.\<close>

definition answer_with :: "StreamResult \<Rightarrow> 'cfg StreamTextRequest \<Rightarrow> thrown + StreamResult" where
  "answer_with r req = Inr r"


definition ex_reason_pending :: StreamResult where
  "ex_reason_pending =
     ex_handle\<lparr>finishReason := Pending, text_reads := (\<lambda>i. Resolves 0 (Some ''Final text''))\<rparr>"

definition ex_final_text :: StreamResult where
  "ex_final_text = ex_handle\<lparr>text_reads := (\<lambda>i. Resolves 0 (Some ''Final text''))\<rparr>"


definition ex_call :: js_value where
  "ex_call = JObj [(''toolCallId'', JStr ''call-1''), (''toolName'', JStr ''getCryptoPrice'')]"

definition ex_delayed :: StreamResult where
  "ex_delayed =
     ex_handle\<lparr>fullStream := [Yield (OtherPart ''tool-call'')],
                text_reads := (\<lambda>i. if i = 0 then Resolves 0 (Some []) else Resolves 0 (Some ''Delayed'')),
                toolCalls := Resolves 0 (Some [ex_call]),
                finishReason := Resolves 0 (Some ''tool-calls'')\<rparr>"

definition ex_no_text :: StreamResult where
  "ex_no_text =
     ex_handle\<lparr>text_reads := (\<lambda>i. Resolves 0 (Some ''  '')),
                toolCalls := Resolves 0 (Some [ex_call]),
                finishReason := Resolves 0 None\<rparr>"



definition ex_blank :: StreamResult where
  "ex_blank =
     (ex_handle\<lparr>toolCalls := Resolves 0 (Some [ex_call])\<rparr>)
       \<lparr>text_reads := (\<lambda>i. Resolves ((\<lambda>i. 0) i) (Some (if i = 0 then ''  '' else '' '')))\<rparr>"

definition ex_empty :: StreamResult where
  "ex_empty =
     (ex_handle\<lparr>toolCalls := Resolves 0 (Some [ex_call])\<rparr>)
       \<lparr>text_reads := (\<lambda>i. Resolves ((\<lambda>i. 0) i) (Some []))\<rparr>"





definition ex_tool_request :: SendMessageParams where
  "ex_tool_request = ex_plain\<lparr>tools := Some ex_tools, contextData := ex_cd\<rparr>"

section \<open>Prompt assembly: order of the turns\<close>

lemma ex_params_history:
  "(case conversationHistory (ex_params\<lparr>contextData := c\<rparr>) of None \<Rightarrow> [] | Some hs \<Rightarrow> hs)
     = [\<lparr>msg_type = USER, msg_text = ''a''\<rparr>, \<lparr>msg_type = COPILOT, msg_text = ''b''\<rparr>]"
  by (simp add: ex_params_def)

text \<open>
  C1, as stated, fails: with the context object \<open>{toolA: {x: 1}}\<close> and no history the
  assembled list is the user turn, then the synthetic assistant turn, then the synthetic
  tool turn, so the user turn is not the last one.
\<close>

theorem C1_counterexample:
  "assembleMessages \<lparr>userId = ''u'', user_text = ''hi'', conversationHistory = None,
       systemPrompt = None, tools = None,
       contextData = Some [(''toolA'', JObj [(''x'', JNum 1)])]\<rparr>
     = [CoreMessage R_user (Text ''hi''),
        CoreMessage R_assistant (Parts [ToolCallPart ''pre-fetched-toolA'' ''toolA'' (JObj [])]),
        CoreMessage R_tool
          (Parts [ToolResultPart ''pre-fetched-toolA'' ''toolA'' (JObj [(''x'', JNum 1)])])]
   \<and> last (assembleMessages \<lparr>userId = ''u'', user_text = ''hi'', conversationHistory = None,
       systemPrompt = None, tools = None,
       contextData = Some [(''toolA'', JObj [(''x'', JNum 1)])]\<rparr>)
     \<noteq> CoreMessage R_user (Text ''hi'')"
  by (simp add: assembleMessages_def pre_fetched_call_def pre_fetched_result_def)

text \<open>
  C1, amended: the assembled list starts with the history in its order, each entry mapped
  to a user or assistant turn with its text unchanged; the new user message comes right
  after the history; an absent or empty context object adds nothing, so the user turn is
  then the last one; a non-empty context object adds, after the user turn, the synthetic
  assistant turn followed by the synthetic tool-result turns.
\<close>

theorem C1_prompt_order:
  fixes params :: SendMessageParams
  defines "h \<equiv> (case conversationHistory params of None \<Rightarrow> [] | Some hs \<Rightarrow> hs)"
  defines "ms \<equiv> assembleMessages params"
  shows "take (length h) ms = map history_turn h
     \<and> (\<forall>i<length h. role (ms ! i) = (if msg_type (h ! i) = USER then R_user else R_assistant)
                      \<and> content (ms ! i) = Text (msg_text (h ! i)))
     \<and> ms ! length h = CoreMessage R_user (Text (user_text params))
     \<and> (contextData params = None \<or> contextData params = Some []
          \<longrightarrow> ms = map history_turn h @ [CoreMessage R_user (Text (user_text params))])
     \<and> (\<forall>cd. contextData params = Some cd \<and> cd \<noteq> []
          \<longrightarrow> drop (Suc (length h)) ms
                = CoreMessage R_assistant (Parts (map pre_fetched_call cd))
                    # map pre_fetched_result cd)"
  unfolding h_def ms_def assembleMessages_def Let_def
  by (auto simp: nth_append history_turn_def split: option.splits)

theorem C1_prompt_order_witness:
  "drop 3 (assembleMessages ex_params)
     = [CoreMessage R_assistant (Parts [ToolCallPart ''pre-fetched-toolA'' ''toolA'' (JObj [])]),
        CoreMessage R_tool
          (Parts [ToolResultPart ''pre-fetched-toolA'' ''toolA'' (JObj [(''x'', JNum 1)])])]
   \<and> assembleMessages ex_params ! 1 = CoreMessage R_assistant (Text ''b'')
   \<and> assembleMessages (ex_params\<lparr>contextData := Some []\<rparr>)
     = [CoreMessage R_user (Text ''a''), CoreMessage R_assistant (Text ''b''),
        CoreMessage R_user (Text ''hi'')]"
proof -
  let ?cd = "[(''toolA'', JObj [(''x'', JNum 1)])]"
  have c: "contextData ex_params = Some ?cd \<and> ?cd \<noteq> []"
    by (simp add: ex_params_def)
  have c': "contextData (ex_params\<lparr>contextData := Some []\<rparr>) = None
              \<or> contextData (ex_params\<lparr>contextData := Some []\<rparr>) = Some []"
    by simp
  from C1_prompt_order [of ex_params] c
  have d: "drop (Suc (Suc (Suc 0))) (assembleMessages ex_params)
             = CoreMessage R_assistant (Parts (map pre_fetched_call ?cd))
                 # map pre_fetched_result ?cd"
    unfolding ex_params_history [of "contextData ex_params", simplified] by fastforce
  from C1_prompt_order [of ex_params]
  have n: "role (assembleMessages ex_params ! 1) = R_assistant
             \<and> content (assembleMessages ex_params ! 1) = Text ''b''"
    unfolding ex_params_history [of "contextData ex_params", simplified] by fastforce
  from C1_prompt_order [of "ex_params\<lparr>contextData := Some []\<rparr>"] c'
  have e: "assembleMessages (ex_params\<lparr>contextData := Some []\<rparr>)
             = map history_turn
                 [\<lparr>msg_type = USER, msg_text = ''a''\<rparr>, \<lparr>msg_type = COPILOT, msg_text = ''b''\<rparr>]
               @ [CoreMessage R_user (Text (user_text (ex_params\<lparr>contextData := Some []\<rparr>)))]"
    unfolding ex_params_history by blast
  have u: "user_text (ex_params\<lparr>contextData := Some []\<rparr>) = ''hi''"
    by (simp add: ex_params_def)
  from d e n show ?thesis
    by (cases "assembleMessages ex_params ! 1")
       (simp add: u numeral_3_eq_3 pre_fetched_call_def pre_fetched_result_def history_turn_def)
qed

section \<open>Prompt assembly: the injected turns\<close>

text \<open>
  C9: for a non-empty context object the list has exactly one synthetic assistant turn, at
  the position after the user turn, with one tool-call part per key, in key order, each
  with empty arguments and the call id \<open>pre-fetched-<key>\<close>; it is followed by one tool
  turn per key, carrying the same call id and that key's value, so every injected result
  refers to a call id of that assistant turn; the turns before it are the history and the
  user turn, none of which is a tool turn or a turn of parts.
\<close>

theorem C9_injection_consistent:
  fixes params :: SendMessageParams
  defines "h \<equiv> (case conversationHistory params of None \<Rightarrow> [] | Some hs \<Rightarrow> hs)"
  defines "ms \<equiv> assembleMessages params"
  assumes cd: "contextData params = Some cd" and ne: "cd \<noteq> []"
  shows "length ms = length h + 2 + length cd
     \<and> ms ! (length h + 1)
         = CoreMessage R_assistant
             (Parts (map (\<lambda>k. ToolCallPart (''pre-fetched-'' @ k) k (JObj [])) (map fst cd)))
     \<and> (\<forall>i<length cd.
           ms ! (length h + 2 + i)
             = CoreMessage R_tool
                 (Parts [ToolResultPart (''pre-fetched-'' @ fst (cd ! i)) (fst (cd ! i))
                           (snd (cd ! i))])
         \<and> (\<exists>calls. content (ms ! (length h + 1)) = Parts calls
                \<and> ''pre-fetched-'' @ fst (cd ! i) \<in> toolCallId ` set calls))
     \<and> (\<forall>m \<in> set (take (length h + 1) ms). role m \<noteq> R_tool \<and> (\<forall>ps. content m \<noteq> Parts ps))"
  using cd ne unfolding h_def ms_def assembleMessages_def Let_def
  by (auto simp: nth_append history_turn_def pre_fetched_call_def pre_fetched_result_def
        comp_def image_iff split: option.splits)

theorem C9_injection_consistent_witness:
  "length (assembleMessages ex_params) = 5
   \<and> assembleMessages ex_params ! 3
       = CoreMessage R_assistant (Parts [ToolCallPart ''pre-fetched-toolA'' ''toolA'' (JObj [])])
   \<and> assembleMessages ex_params ! 4
       = CoreMessage R_tool
           (Parts [ToolResultPart ''pre-fetched-toolA'' ''toolA'' (JObj [(''x'', JNum 1)])])"
proof -
  let ?cd = "[(''toolA'', JObj [(''x'', JNum 1)])]"
  have c: "contextData ex_params = Some ?cd"
    by (simp add: ex_params_def)
  have ne: "?cd \<noteq> []"
    by simp
  have i: "(0::nat) < length ?cd"
    by simp
  from C9_injection_consistent [OF c ne] i show ?thesis
    unfolding ex_params_history [of "contextData ex_params", simplified]
    by (auto simp: numeral_eq_Suc)
qed


section \<open>Tool registration\<close>

lemma fold_update_distinct:
  "distinct (map fst acc) \<Longrightarrow> distinct (map fst (fold (\<lambda>(k, v) obj. AList.update k v obj) es acc))"
  by (induction es arbitrary: acc) (auto simp: distinct_update)

lemma fold_update_map_of:
  "map_of (fold (\<lambda>(k, v) obj. AList.update k v obj) es acc) = map_of acc ++ map_of (rev es)"
  by (induction es arbitrary: acc) (auto simp: update_conv' map_add_upd_left)

lemma fromEntries_map_of: "map_of (fromEntries es) = map_of (rev es)"
  by (simp add: fromEntries_def fold_update_map_of)

lemma fromEntries_keys: "fst ` set (fromEntries es) = fst ` set es"
proof -
  have "dom (map_of (fromEntries es)) = dom (map_of (rev es))"
    by (simp only: fromEntries_map_of)
  then show ?thesis
    by (simp add: dom_map_of_conv_image_fst)
qed

lemma fromEntries_distinct: "distinct (map fst (fromEntries es))"
  by (simp add: fromEntries_def fold_update_distinct)

lemma fromEntries_last:
  assumes "k \<notin> fst ` set post"
  shows "map_of (fromEntries (pre @ (k, v) # post)) k = Some v"
proof -
  have "map_of (rev post) k = None"
    using assms by (simp add: map_of_eq_None_iff)
  then show ?thesis
    by (simp add: fromEntries_map_of map_add_def)
qed

lemma tool_entries_Inr:
  "tool_entries cd ds = Inr es \<Longrightarrow>
     list_all2 (\<lambda>d e. fst e = name d \<and> (\<exists>z. jsonSchemaToZod (parameters d) = Inr z
                     \<and> snd e = \<lparr>tool_description = description d, tool_parameters = z,
                                execute = execute_body cd (name d)\<rparr>)) ds es"
  by (induction ds arbitrary: es) (auto split: sum.splits)

lemma tool_entries_total:
  "(\<forall>d \<in> set ds. \<exists>z. jsonSchemaToZod (parameters d) = Inr z) \<Longrightarrow> \<exists>es. tool_entries cd ds = Inr es"
  by (induction ds) (auto split: sum.splits)


lemma tool_entries_keys: "tool_entries cd ds = Inr es \<Longrightarrow> map fst es = map name ds"
  by (induction ds arbitrary: es) (auto split: sum.splits)

lemma tool_entries_lookup:
  assumes es: "tool_entries cd ds = Inr es"
    and ds: "ds = pre @ d # post"
    and last: "name d \<notin> name ` set post"
  shows "\<exists>z. jsonSchemaToZod (parameters d) = Inr z
           \<and> map_of (fromEntries es) (name d)
               = Some \<lparr>tool_description = description d, tool_parameters = z,
                       execute = execute_body cd (name d)\<rparr>"
proof -
  let ?P = "\<lambda>d e. fst e = name d \<and> (\<exists>z. jsonSchemaToZod (parameters d) = Inr z
                     \<and> snd e = \<lparr>tool_description = description d, tool_parameters = z,
                                execute = execute_body cd (name d)\<rparr>)"
  from tool_entries_Inr [OF es] have "list_all2 ?P (pre @ d # post) es"
    by (simp only: ds)
  then obtain epre erest where e1: "es = epre @ erest" and "list_all2 ?P (d # post) erest"
    by (auto simp: list_all2_append1)
  then obtain e epost where e2: "erest = e # epost" and pe: "?P d e" and pp: "list_all2 ?P post epost"
    by (auto simp: list_all2_Cons1)
  from pp have "map fst epost = map name post"
    by (induction rule: list_all2_induct) auto
  then have "fst ` set epost = name ` set post"
    by (metis image_set)
  with last have nk: "name d \<notin> fst ` set epost"
    by simp
  from pe obtain z where z: "jsonSchemaToZod (parameters d) = Inr z"
    and e: "e = (name d, \<lparr>tool_description = description d, tool_parameters = z,
                       execute = execute_body cd (name d)\<rparr>)"
    by (cases e) auto
  from fromEntries_last [OF nk] show ?thesis
    unfolding e1 e2 e using z by blast
qed



lemma ex_schema_converts: "jsonSchemaToZod ex_schema = Inr (ZObjectPassthrough [(''q'', ZString)])"
  by (simp add: jsonSchemaToZod_def ex_schema_def prop_zod_type_def js_member_def)

lemma no_schema_converts:
  "jsonSchemaToZod JUndefined = Inr (ZObjectPassthrough [])"
  "jsonSchemaToZod JNull = Inr (ZObjectPassthrough [])"
  by (simp_all add: jsonSchemaToZod_def)

lemma ex_registry_built: "aiSdkTools (Some ex_tools) ex_cd = Inr (Some ex_registry)"
  by (simp add: aiSdkTools_def ex_tools_def ex_schema_converts no_schema_converts
        fromEntries_def ex_registry_def)





lemma ex_tool_request_built:
  "aiSdkTools (tools ex_tool_request) (contextData ex_tool_request) = Inr (Some ex_registry)"
  by (simp add: ex_tool_request_def ex_plain_def ex_registry_built)


text \<open>
  C10: whenever the tool mapping is built from a declaration list, it is a mapping (not
  undefined) whose keys are exactly the declared names, each key occurs once, and the
  entry under a name is the tool made from the last declaration of that name in the list:
  its description, the validator of its schema, and an execute operation for that name.
  The mapping is built whenever the parameter schema of every declaration converts. And
  it is what the provider is called with: a provider that answers with one fragment
  telling whether the tools it was given are that mapping, answers that they are.
\<close>

theorem C10_tool_mapping:
  "(\<forall>tls. aiSdkTools (Some ds) cd = Inr tls
      \<longrightarrow> (\<exists>m. tls = Some m
             \<and> fst ` set m = name ` set ds
             \<and> distinct (map fst m)
             \<and> (\<forall>pre d post. ds = pre @ d # post \<and> name d \<notin> name ` set post
                   \<longrightarrow> (\<exists>z. jsonSchemaToZod (parameters d) = Inr z
                          \<and> map_of m (name d)
                              = Some \<lparr>tool_description = description d, tool_parameters = z,
                                      execute = execute_body cd (name d)\<rparr>))))
   \<and> ((\<forall>d \<in> set ds. \<exists>z. jsonSchemaToZod (parameters d) = Inr z)
      \<longrightarrow> (\<exists>m. aiSdkTools (Some ds) cd = Inr (Some m)))
   \<and> (\<forall>tls h. aiSdkTools (tools params) (contextData params) = Inr tls
      \<longrightarrow> yielded (streamMessage config
                     (\<lambda>req. Inr (h\<lparr>textStream :=
                                     [Yield (if req_tools req = tls then ''given'' else ''other'')]\<rparr>))
                     params)
            = [''given''])"
proof (intro conjI allI impI)
  fix tls
  assume "aiSdkTools (Some ds) cd = Inr tls"
  then obtain es where es: "tool_entries cd ds = Inr es" and m: "tls = Some (fromEntries es)"
    by (auto simp: aiSdkTools_def split: sum.splits)
  have "fst ` set (fromEntries es) = name ` set ds"
    unfolding fromEntries_keys using tool_entries_keys [OF es] by (metis image_set)
  moreover have "distinct (map fst (fromEntries es))"
    by (rule fromEntries_distinct)
  moreover have "\<forall>pre d post. ds = pre @ d # post \<and> name d \<notin> name ` set post
           \<longrightarrow> (\<exists>z. jsonSchemaToZod (parameters d) = Inr z
                  \<and> map_of (fromEntries es) (name d)
                      = Some \<lparr>tool_description = description d, tool_parameters = z,
                              execute = execute_body cd (name d)\<rparr>)"
    using tool_entries_lookup [OF es] by blast
  ultimately show "\<exists>m. tls = Some m
             \<and> fst ` set m = name ` set ds
             \<and> distinct (map fst m)
             \<and> (\<forall>pre d post. ds = pre @ d # post \<and> name d \<notin> name ` set post
                   \<longrightarrow> (\<exists>z. jsonSchemaToZod (parameters d) = Inr z
                          \<and> map_of m (name d)
                              = Some \<lparr>tool_description = description d, tool_parameters = z,
                                      execute = execute_body cd (name d)\<rparr>))"
    unfolding m by blast
next
  assume "\<forall>d \<in> set ds. \<exists>z. jsonSchemaToZod (parameters d) = Inr z"
  from tool_entries_total [OF this] obtain es where "tool_entries cd ds = Inr es"
    by blast
  then show "\<exists>m. aiSdkTools (Some ds) cd = Inr (Some m)"
    by (simp add: aiSdkTools_def)
next
  fix tls h
  assume "aiSdkTools (tools params) (contextData params) = Inr tls"
  then show "yielded (streamMessage config
                     (\<lambda>req. Inr (h\<lparr>textStream :=
                                     [Yield (if req_tools req = tls then ''given'' else ''other'')]\<rparr>))
                     params)
            = [''given'']"
    by (simp add: streamMessage_def stream_tiers_def Let_def)
qed

theorem C10_tool_mapping_witness:
  "(\<exists>m. aiSdkTools (Some ex_tools) ex_cd = Inr (Some m)
       \<and> fst ` set m = {''getPrice'', ''getNews''}
       \<and> distinct (map fst m)
       \<and> map_option tool_description (map_of m ''getPrice'') = Some ''second'')
   \<and> yielded (streamMessage ()
               (\<lambda>req. Inr (ex_handle\<lparr>textStream :=
                               [Yield (if req_tools req = Some ex_registry
                                       then ''given'' else ''other'')]\<rparr>))
               ex_tool_request)
      = [''given'']"
proof -
  let ?pre = "[\<lparr>name = ''getPrice'', description = ''first'', parameters = JUndefined\<rparr>,
               \<lparr>name = ''getNews'', description = ''news'', parameters = ex_schema\<rparr>]"
  let ?d = "\<lparr>name = ''getPrice'', description = ''second'', parameters = JNull\<rparr>"
  have conv: "\<forall>d \<in> set ex_tools. \<exists>z. jsonSchemaToZod (parameters d) = Inr z"
    by (simp add: ex_tools_def ex_schema_converts no_schema_converts)
  have split: "ex_tools = ?pre @ ?d # [] \<and> name ?d \<notin> name ` set []"
    by (simp add: ex_tools_def)
  note t = C10_tool_mapping [where ds = ex_tools and cd = ex_cd and params = ex_tool_request
                               and config = "()"]
  from t [THEN conjunct2, THEN conjunct1, THEN mp, OF conv] obtain m
    where built: "aiSdkTools (Some ex_tools) ex_cd = Inr (Some m)"
    by blast
  from t [THEN conjunct1, rule_format, OF built] obtain m'
    where same: "Some m = Some m'"
      and k': "fst ` set m' = name ` set ex_tools" and d': "distinct (map fst m')"
      and last': "\<forall>pre d post. ex_tools = pre @ d # post \<and> name d \<notin> name ` set post
           \<longrightarrow> (\<exists>z. jsonSchemaToZod (parameters d) = Inr z
                  \<and> map_of m' (name d)
                      = Some \<lparr>tool_description = description d, tool_parameters = z,
                              execute = execute_body ex_cd (name d)\<rparr>)"
    by (elim exE conjE)
  from same have mm: "m' = m"
    by simp
  note k = k' [unfolded mm] and d = d' [unfolded mm] and last = last' [unfolded mm]
  from last [rule_format, OF split] obtain z where
    "map_of m (name ?d)
       = Some \<lparr>tool_description = description ?d, tool_parameters = z,
               execute = execute_body ex_cd (name ?d)\<rparr>"
    by (elim exE conjE)
  then have l: "map_option tool_description (map_of m ''getPrice'') = Some ''second''"
    by simp
  have "name ` set ex_tools = {''getPrice'', ''getNews''}"
    by (simp add: ex_tools_def insert_commute)
  with built k d l have a: "\<exists>m. aiSdkTools (Some ex_tools) ex_cd = Inr (Some m)
       \<and> fst ` set m = {''getPrice'', ''getNews''}
       \<and> distinct (map fst m)
       \<and> map_option tool_description (map_of m ''getPrice'') = Some ''second''"
    by auto
  from t [THEN conjunct2, THEN conjunct2, rule_format, OF ex_tool_request_built, of ex_handle] a
  show ?thesis
    by (intro conjI)
qed





section \<open>Streaming tiers\<close>





lemma outer_catch_classified: "isAiSdkError e \<Longrightarrow> outer_catch params msgs e = e"
  by (simp add: outer_catch_def throw_fromError_def fromError_def)



lemma streamMessage_answered:
  assumes "provider_result config streamText params = Some r"
  shows "streamMessage config streamText params =
     (let run = stream_tiers params (assembleMessages params) r
      in case ending run of
           Raises e \<Rightarrow> run\<lparr>ending := Raises (outer_catch params (assembleMessages params) e)\<rparr>
         | _ \<Rightarrow> run)"
  using assms
  by (auto simp: provider_result_def streamMessage_def Let_def split: sum.splits)


lemma read_fullStream_silent:
  "list_all is_other ps \<Longrightarrow> read_fullStream ps = ([], length ps, Exhausted)"
proof (induction ps)
  case Nil
  then show ?case by simp
next
  case (Cons p ps)
  then show ?case by (cases p rule: is_other.cases) auto
qed


lemma isAiSdkError_result_catch: "isAiSdkError (result_catch params msgs e)"
  by (simp add: result_catch_def isAiSdkError_def)

lemma streamMessage_settlement:
  assumes "provider_result config streamText params = Some r"
    and "textStream r = []"
    and "list_all is_other (fullStream r)"
  shows "streamMessage config streamText params =
     (case settlement_try params (assembleMessages params) r of
        (fs, Value u t) \<Rightarrow>
          \<lparr>yielded = fs, ending = Done, parts_taken = length (fullStream r), elapsed = t\<rparr>
      | (fs, Raised e t) \<Rightarrow>
          \<lparr>yielded = fs, ending = Raises (result_catch params (assembleMessages params) e),
           parts_taken = length (fullStream r), elapsed = t\<rparr>
      | (fs, Never) \<Rightarrow>
          \<lparr>yielded = fs, ending = Hangs, parts_taken = length (fullStream r), elapsed = 0\<rparr>)"
proof -
  obtain fs a where st: "settlement_try params (assembleMessages params) r = (fs, a)"
    by (cases "settlement_try params (assembleMessages params) r")
  show ?thesis
    using assms(2) read_fullStream_silent [OF assms(3)]
    by (cases a)
       (simp_all add: streamMessage_answered [OF assms(1)] stream_tiers_def st catch_rethrow_def
          outer_catch_classified isAiSdkError_result_catch)
qed

lemma settlement_try_values:
  assumes "finishReason r = Resolves tf fr" and "tf < 5000"
    and "text_reads r 0 = Resolves tx finalText" and "tx < tf + 30000"
    and "toolCalls r = Resolves tc finalToolCalls" and "tc < max tf tx + 30000"
  shows "settlement_try params msgs r =
     (case usable_text finalText of
        Some s \<Rightarrow> ([s], Value () (max (max tf tx) tc))
      | None \<Rightarrow>
          if length_or_0 finalToolCalls \<noteq> 0
          then catch_rethrow (delayed_catch (length_or_0 finalToolCalls) fr)
                 (delayed_try r (length_or_0 finalToolCalls) fr (max (max tf tx) tc + 1000))
          else ([], Raised (AiSdkError (nothing_message params msgs fr finalToolCalls)
                              None None) (max (max tf tx) tc)))"
  using assms by (simp add: settlement_try_def race_def)

lemma usable_text_blank: "trim s = [] \<Longrightarrow> usable_text (Some s) = None"
  by (simp add: usable_text_def)

lemma usable_text_nonblank: "trim s \<noteq> [] \<Longrightarrow> usable_text (Some s) = Some s"
  by (auto simp: usable_text_def trim_def)

lemma usable_text_empty: "usable_text (Some []) = None"
  by (simp add: usable_text_def)

lemma no_text_message_states:
  "sublist (''ToolCalls: '' @ show_nat n @ '', FinishReason: '' @ or_unknown fr)
     (no_text_message n fr)"
  unfolding sublist_def no_text_message_def
  by (rule exI [of _ "''AI SDK called tools but did not generate text. ''"], rule exI [of _ "[]"])
     simp

lemma sublist_in_context: "sublist xs ys \<Longrightarrow> sublist xs (ps @ ys @ ss)"
  by (metis sublist_appendI sublist_order.order_trans)

lemma surfaced_no_text_states:
  "sublist (''ToolCalls: '' @ show_nat n @ '', FinishReason: '' @ or_unknown fr)
     (message (result_catch params msgs (delayed_catch n fr e)))"
proof -
  have m: "message (result_catch params msgs (delayed_catch n fr e))
      = (''AI SDK stream completed without generating any chunks. '' @ contextInfo params msgs
           @ ''. Error getting final result: '')
        @ no_text_message n fr
        @ ('', Error: '' @ (if instanceof_Error e then message e else ''Unknown''))"
    by (simp add: result_catch_def delayed_catch_def instanceof_Error_def)
  show ?thesis
    unfolding m by (rule sublist_in_context [OF no_text_message_states])
qed







lemma blank_delayed_try:
  assumes "trim b1 = []"
  shows "delayed_try (r\<lparr>text_reads := \<lambda>i. Resolves (ts i) (Some (if i = 0 then b0 else b1))\<rparr>) n fr now
       = delayed_try (r\<lparr>text_reads := \<lambda>i. Resolves (ts i) (Some [])\<rparr>) n fr now"
  by (simp add: delayed_try_def await_def usable_text_blank [OF assms] usable_text_empty)

lemma blank_settlement_try:
  assumes "trim b0 = []" and "trim b1 = []"
  shows "settlement_try params msgs
           (r\<lparr>text_reads := \<lambda>i. Resolves (ts i) (Some (if i = 0 then b0 else b1))\<rparr>)
       = settlement_try params msgs (r\<lparr>text_reads := \<lambda>i. Resolves (ts i) (Some [])\<rparr>)"
proof (cases "race (finishReason r) ''Timeout waiting for result.finishReason'' 5000 0")
  case (Value fr t1)
  note d = blank_delayed_try [OF assms(2)]
  note u = usable_text_blank [OF assms(1)] usable_text_empty
  show ?thesis
  proof (cases "ts 0 < t1 + 30000")
    case True
    then have t: "race (Resolves (ts 0) (Some b0)) ''Timeout waiting for result.text'' 30000 t1
                    = Value (Some b0) (max t1 (ts 0))"
      "race (Resolves (ts 0) (Some [])) ''Timeout waiting for result.text'' 30000 t1
                    = Value (Some []) (max t1 (ts 0))"
      by (simp_all add: race_def)
    show ?thesis
      by (cases "race (toolCalls r) ''Timeout waiting for result.toolCalls'' 30000 (max t1 (ts 0))")
         (simp_all add: settlement_try_def Value t u d)
  next
    case False
    then have t: "race (Resolves (ts 0) (Some b0)) ''Timeout waiting for result.text'' 30000 t1
                    = Raised (AiSdkError ''Timeout waiting for result.text'' None None) (t1 + 30000)"
      "race (Resolves (ts 0) (Some [])) ''Timeout waiting for result.text'' 30000 t1
                    = Raised (AiSdkError ''Timeout waiting for result.text'' None None) (t1 + 30000)"
      by (simp_all add: race_def)
    show ?thesis
      by (simp add: settlement_try_def Value t)
  qed
qed (simp_all add: settlement_try_def)

lemma stream_tiers_cong:
  assumes "textStream r = textStream r'" and "fullStream r = fullStream r'"
    and "settlement_try params msgs r = settlement_try params msgs r'"
  shows "stream_tiers params msgs r = stream_tiers params msgs r'"
  unfolding stream_tiers_def assms ..

lemma blank_stream_tiers:
  assumes "trim b0 = []" and "trim b1 = []"
  shows "stream_tiers params msgs
           (r\<lparr>text_reads := \<lambda>i. Resolves (ts i) (Some (if i = 0 then b0 else b1))\<rparr>)
       = stream_tiers params msgs (r\<lparr>text_reads := \<lambda>i. Resolves (ts i) (Some [])\<rparr>)"
  by (rule stream_tiers_cong) (simp_all add: blank_settlement_try [OF assms])

subsection \<open>Example runs\<close>

lemma show_nat_digits: "show_nat 0 = ''0''" "show_nat 1 = ''1''" "show_nat 2 = ''2''"
  by code_simp+

lemma show_nat_Suc_0: "show_nat (Suc 0) = ''1''"
  by code_simp

lemma ex_plain_provider: "provider_result () (answer_with r) ex_plain = Some r"
  by (simp add: provider_result_def answer_with_def ex_plain_def aiSdkTools_def)

lemma ex_plain_info:
  "contextInfo ex_plain (assembleMessages ex_plain) = ''Messages: 1, Tools: 0, ContextData keys: none''"
  by (simp add: contextInfo_def assembleMessages_def ex_plain_def length_or_0_def show_nat_digits show_nat_Suc_0)

lemma trim_examples:
  "trim ''Final text'' \<noteq> []" "trim ''Delayed'' \<noteq> []" "trim ''  '' = []" "trim '' '' = []"
  by (simp_all add: trim_def is_js_space_def)



subsection \<open>The richer channel: deltas, then an error\<close>




subsection \<open>Classification of failures\<close>













subsection \<open>The final text\<close>

text \<open>
  C4, as stated, fails: with both channels silent and a final text that resolves at once
  to \<open>Final text\<close>, a finish reason that never settles makes the run raise after five
  seconds without yielding anything.
\<close>

theorem C4_counterexample:
  "text_reads ex_reason_pending 0 = Resolves 0 (Some ''Final text'')
   \<and> trim ''Final text'' = ''Final text''
   \<and> textStream ex_reason_pending = [] \<and> fullStream ex_reason_pending = []
   \<and> yielded (streamMessage () (answer_with ex_reason_pending) ex_plain) = []
   \<and> ending (streamMessage () (answer_with ex_reason_pending) ex_plain)
     = Raises (AiSdkError
         (''AI SDK stream completed without generating any chunks. ''
            @ ''Messages: 1, Tools: 0, ContextData keys: none''
            @ ''. Error getting final result: Timeout waiting for result.finishReason'')
         (Some (AiSdkError ''Timeout waiting for result.finishReason'' None None)) None)"
proof -
  have s: "textStream ex_reason_pending = []" "list_all is_other (fullStream ex_reason_pending)"
    by (simp_all add: ex_reason_pending_def ex_handle_def)
  have "settlement_try ex_plain (assembleMessages ex_plain) ex_reason_pending
          = ([], Raised (AiSdkError ''Timeout waiting for result.finishReason'' None None) 5000)"
    by (simp add: settlement_try_def race_def ex_reason_pending_def ex_handle_def)
  moreover have "trim ''Final text'' = ''Final text''"
    by (simp add: trim_def is_js_space_def)
  ultimately show ?thesis
    by (simp add: streamMessage_settlement [OF ex_plain_provider s] result_catch_def
          instanceof_Error_def ex_plain_info)
       (simp add: ex_reason_pending_def ex_handle_def)
qed

text \<open>
  C4, amended: if the provider answers, the primary channel delivers nothing, the richer
  channel delivers neither a text delta nor an error, the finish reason and the tool
  invocations resolve before their deadlines, and the final text resolves before its
  deadline to a string that is not empty after trimming, the run yields exactly that
  string and ends successfully. A whitespace-only text is treated as the empty one at
  both checks of the tier: replacing resolved whitespace-only texts (first and second
  read) by empty texts does not change the run.
\<close>

theorem C4_final_text:
  "(provider_result config streamText params = Some r
      \<and> textStream r = [] \<and> list_all is_other (fullStream r)
      \<and> finishReason r = Resolves tf fr \<and> tf < 5000
      \<and> text_reads r 0 = Resolves tx (Some s) \<and> tx < tf + 30000
      \<and> toolCalls r = Resolves tc calls \<and> tc < max tf tx + 30000
      \<and> trim s \<noteq> []
    \<longrightarrow> yielded (streamMessage config streamText params) = [s]
      \<and> ending (streamMessage config streamText params) = Done)
   \<and> (trim b0 = [] \<and> trim b1 = []
    \<longrightarrow> streamMessage config
          (answer_with (r'\<lparr>text_reads := \<lambda>i. Resolves (ts i) (Some (if i = 0 then b0 else b1))\<rparr>))
          params
        = streamMessage config (answer_with (r'\<lparr>text_reads := \<lambda>i. Resolves (ts i) (Some [])\<rparr>))
            params)"
proof (intro conjI impI)
  assume h: "provider_result config streamText params = Some r
      \<and> textStream r = [] \<and> list_all is_other (fullStream r)
      \<and> finishReason r = Resolves tf fr \<and> tf < 5000
      \<and> text_reads r 0 = Resolves tx (Some s) \<and> tx < tf + 30000
      \<and> toolCalls r = Resolves tc calls \<and> tc < max tf tx + 30000
      \<and> trim s \<noteq> []"
  then have st: "settlement_try params (assembleMessages params) r
                   = ([s], Value () (max (max tf tx) tc))"
    by (simp add: settlement_try_values [of r tf fr tx "Some s" tc calls] usable_text_nonblank)
  from h have out: "streamMessage config streamText params =
     (case settlement_try params (assembleMessages params) r of
        (fs, Value u t) \<Rightarrow>
          \<lparr>yielded = fs, ending = Done, parts_taken = length (fullStream r), elapsed = t\<rparr>
      | (fs, Raised e t) \<Rightarrow>
          \<lparr>yielded = fs, ending = Raises (result_catch params (assembleMessages params) e),
           parts_taken = length (fullStream r), elapsed = t\<rparr>
      | (fs, Never) \<Rightarrow>
          \<lparr>yielded = fs, ending = Hangs, parts_taken = length (fullStream r), elapsed = 0\<rparr>)"
    by (intro streamMessage_settlement) simp_all
  show "yielded (streamMessage config streamText params) = [s]"
    by (simp add: out st)
  show "ending (streamMessage config streamText params) = Done"
    by (simp add: out st)
next
  assume "trim b0 = [] \<and> trim b1 = []"
  then show "streamMessage config
          (answer_with (r'\<lparr>text_reads := \<lambda>i. Resolves (ts i) (Some (if i = 0 then b0 else b1))\<rparr>))
          params
        = streamMessage config (answer_with (r'\<lparr>text_reads := \<lambda>i. Resolves (ts i) (Some [])\<rparr>))
            params"
    by (cases "aiSdkTools (tools params) (contextData params)")
       (simp_all add: streamMessage_def answer_with_def blank_stream_tiers)
qed

theorem C4_final_text_witness:
  "yielded (streamMessage () (answer_with ex_final_text) ex_plain) = [''Final text'']
   \<and> ending (streamMessage () (answer_with ex_final_text) ex_plain) = Done
   \<and> streamMessage () (answer_with ex_blank) ex_plain
       = streamMessage () (answer_with ex_empty) ex_plain"
proof -
  have a: "provider_result () (answer_with ex_final_text) ex_plain = Some ex_final_text
      \<and> textStream ex_final_text = [] \<and> list_all is_other (fullStream ex_final_text)
      \<and> finishReason ex_final_text = Resolves 0 (Some ''stop'') \<and> (0::nat) < 5000
      \<and> text_reads ex_final_text 0 = Resolves 0 (Some ''Final text'') \<and> (0::nat) < 0 + 30000
      \<and> toolCalls ex_final_text = Resolves 0 (Some []) \<and> (0::nat) < max 0 0 + 30000
      \<and> trim ''Final text'' \<noteq> []"
    by (simp add: ex_plain_provider trim_examples) (simp add: ex_final_text_def ex_handle_def)
  have b: "trim ''  '' = [] \<and> trim '' '' = []"
    by (simp add: trim_examples)
  note t = C4_final_text
    [where config = "()" and streamText = "answer_with ex_final_text" and params = ex_plain
       and r = ex_final_text and tf = 0 and fr = "Some ''stop''" and tx = 0
       and s = "''Final text''" and tc = 0 and calls = "Some []" and ?b0.0 = "''  ''"
       and ?b1.0 = "'' ''" and r' = "ex_handle\<lparr>toolCalls := Resolves 0 (Some [ex_call])\<rparr>"
       and ts = "\<lambda>i. 0"]
  from t [THEN conjunct1, rule_format, OF a] t [THEN conjunct2, rule_format, OF b]
  show ?thesis
    by (simp add: ex_blank_def ex_empty_def)
qed

subsection \<open>The grace period and the second read\<close>

text \<open>
  C5: in the settlement tier with all three values resolved in time, a final text that
  is unusable (undefined, empty, or empty after trimming) and at least one tool
  invocation, the text is read again one second after the last race. If the second read
  resolves to a text that is not empty after trimming, that text is the single fragment
  and the run succeeds, the clock standing at the later of the end of the grace period
  and the settling time of the second read. If it resolves to an unusable text, or
  rejects, nothing is yielded and a classified error is raised whose message contains
  the number of tool invocations and the finish reason, with \<open>unknown\<close> for a falsy
  finish reason.
\<close>

theorem C5_grace_reread:
  assumes "provider_result config streamText params = Some r"
    and "textStream r = []" and "list_all is_other (fullStream r)"
    and "finishReason r = Resolves tf fr" and "tf < 5000"
    and "text_reads r 0 = Resolves tx finalText" and "tx < tf + 30000"
    and "usable_text finalText = None"
    and "toolCalls r = Resolves tc (Some calls)" and "tc < max tf tx + 30000"
    and "calls \<noteq> []"
  shows
    "(\<forall>t d. text_reads r 1 = Resolves t (Some d) \<and> trim d \<noteq> []
        \<longrightarrow> yielded (streamMessage config streamText params) = [d]
          \<and> ending (streamMessage config streamText params) = Done
          \<and> elapsed (streamMessage config streamText params)
              = max (max (max tf tx) tc + 1000) t)
   \<and> ((\<exists>t d. text_reads r 1 = Resolves t d \<and> usable_text d = None)
        \<or> (\<exists>t e. text_reads r 1 = Rejects t e)
        \<longrightarrow> yielded (streamMessage config streamText params) = []
          \<and> (\<exists>e. ending (streamMessage config streamText params) = Raises e
                \<and> isAiSdkError e
                \<and> sublist (''ToolCalls: '' @ show_nat (length calls) @ '', FinishReason: ''
                            @ (case fr of None \<Rightarrow> ''unknown''
                               | Some s \<Rightarrow> if s = [] then ''unknown'' else s))
                     (message e)))"
proof -
  let ?out = "streamMessage config streamText params"
  let ?msgs = "assembleMessages params"
  let ?n = "length calls"
  let ?now = "max (max tf tx) tc + 1000"
  have tag: "(case fr of None \<Rightarrow> ''unknown'' | Some s \<Rightarrow> if s = [] then ''unknown'' else s)
               = or_unknown fr"
    by (simp add: or_unknown_def split: option.splits)
  have st: "settlement_try params ?msgs r
              = catch_rethrow (delayed_catch ?n fr) (delayed_try r ?n fr ?now)"
    using assms(8,11)
    by (simp add: settlement_try_values [OF assms(4,5,6,7,9,10)] length_or_0_def)
  note out = streamMessage_settlement [OF assms(1,2,3), unfolded st]
  have a: "yielded ?out = [d] \<and> ending ?out = Done \<and> elapsed ?out = max ?now t"
    if "text_reads r 1 = Resolves t (Some d)" and "trim d \<noteq> []" for t d
    using that
    by (simp add: out delayed_try_def await_def usable_text_nonblank catch_rethrow_def)
  have raised: "yielded ?out = [] \<and> (\<exists>e. ending ?out = Raises e \<and> isAiSdkError e
             \<and> sublist (''ToolCalls: '' @ show_nat ?n @ '', FinishReason: '' @ or_unknown fr)
                  (message e))"
    if "yielded ?out = []"
      and "ending ?out = Raises (result_catch params ?msgs (delayed_catch ?n fr e'))" for e'
    using that isAiSdkError_result_catch [of params ?msgs "delayed_catch ?n fr e'"]
      surfaced_no_text_states [of ?n fr params ?msgs e']
    by blast
  have b: "yielded ?out = [] \<and> (\<exists>e. ending ?out = Raises e \<and> isAiSdkError e
             \<and> sublist (''ToolCalls: '' @ show_nat ?n @ '', FinishReason: '' @ or_unknown fr)
                  (message e))"
    if "text_reads r 1 = Resolves t d" and "usable_text d = None" for t d
    by (rule raised [of "AiSdkError (no_text_message ?n fr) None None"])
       (use that in \<open>simp_all add: out delayed_try_def await_def catch_rethrow_def\<close>)
  have c: "yielded ?out = [] \<and> (\<exists>e. ending ?out = Raises e \<and> isAiSdkError e
             \<and> sublist (''ToolCalls: '' @ show_nat ?n @ '', FinishReason: '' @ or_unknown fr)
                  (message e))"
    if "text_reads r 1 = Rejects t e'" for t e'
    by (rule raised [of e'])
       (use that in \<open>simp_all add: out delayed_try_def await_def catch_rethrow_def\<close>)
  from a b c show ?thesis
    unfolding tag by blast
qed

theorem C5_grace_reread_witness:
  "yielded (streamMessage () (answer_with ex_delayed) ex_plain) = [''Delayed'']
   \<and> ending (streamMessage () (answer_with ex_delayed) ex_plain) = Done
   \<and> elapsed (streamMessage () (answer_with ex_delayed) ex_plain) = 1000
   \<and> yielded (streamMessage () (answer_with ex_no_text) ex_plain) = []
   \<and> (\<exists>e. ending (streamMessage () (answer_with ex_no_text) ex_plain) = Raises e
         \<and> isAiSdkError e
         \<and> sublist ''ToolCalls: 1, FinishReason: unknown'' (message e))"
proof -
  have d: "textStream ex_delayed = []" "list_all is_other (fullStream ex_delayed)"
    "finishReason ex_delayed = Resolves 0 (Some ''tool-calls'')" "(0::nat) < 5000"
    "text_reads ex_delayed 0 = Resolves 0 (Some [])" "(0::nat) < 0 + 30000"
    "usable_text (Some []) = None"
    "toolCalls ex_delayed = Resolves 0 (Some [ex_call])" "(0::nat) < max 0 0 + 30000"
    "[ex_call] \<noteq> []"
    by (simp_all add: ex_delayed_def ex_handle_def usable_text_def)
  have d1: "text_reads ex_delayed 1 = Resolves 0 (Some ''Delayed'') \<and> trim ''Delayed'' \<noteq> []"
    by (simp add: ex_delayed_def trim_examples)
  have n: "textStream ex_no_text = []" "list_all is_other (fullStream ex_no_text)"
    "finishReason ex_no_text = Resolves 0 None" "(0::nat) < 5000"
    "text_reads ex_no_text 0 = Resolves 0 (Some ''  '')" "(0::nat) < 0 + 30000"
    "usable_text (Some ''  '') = None"
    "toolCalls ex_no_text = Resolves 0 (Some [ex_call])" "(0::nat) < max 0 0 + 30000"
    "[ex_call] \<noteq> []"
    by (simp_all add: ex_no_text_def ex_handle_def usable_text_def trim_examples)
  have n1: "(\<exists>t d. text_reads ex_no_text 1 = Resolves t d \<and> usable_text d = None)
      \<or> (\<exists>t e. text_reads ex_no_text 1 = Rejects t e)"
    by (simp add: ex_no_text_def usable_text_def trim_examples)
  from C5_grace_reread [OF ex_plain_provider d, THEN conjunct1, rule_format, OF d1]
    C5_grace_reread [OF ex_plain_provider n, THEN conjunct2, rule_format, OF n1]
  show ?thesis
    by (simp add: show_nat_digits show_nat_Suc_0)
qed

subsection \<open>Bounded settlement\<close>




section \<open>The schema converter\<close>

lemma update_fresh: "k \<notin> fst ` set al \<Longrightarrow> AList.update k v al = al @ [(k, v)]"
  by (induction al) auto

lemma untyped_matches: "\<not> spec_typed p \<Longrightarrow> spec_type_matches p v"
  by (simp add: spec_typed_def spec_type_matches_def)

lemma typed_undefined: "spec_typed p \<Longrightarrow> \<not> spec_type_matches p JUndefined"
  by (auto simp: spec_typed_def spec_type_matches_def)

lemma accepts_items:
  "list_all (accepts ZString) xs
     = list_all (\<lambda>v. case v of JStr s \<Rightarrow> True | _ \<Rightarrow> False) xs"
  "list_all (accepts ZNumber) xs
     = list_all (\<lambda>v. case v of JNum i \<Rightarrow> True | _ \<Rightarrow> False) xs"
  "list_all (accepts ZUnknown) xs"
  by (induction xs) auto

lemma item_matches_fun:
  "js_get items ''type'' = JStr ''string''
     \<Longrightarrow> spec_item_matches items = (\<lambda>v. case v of JStr s \<Rightarrow> True | _ \<Rightarrow> False)"
  "js_get items ''type'' = JStr ''number''
     \<Longrightarrow> spec_item_matches items = (\<lambda>v. case v of JNum i \<Rightarrow> True | _ \<Rightarrow> False)"
  "js_get items ''type'' \<noteq> JStr ''string'' \<Longrightarrow> js_get items ''type'' \<noteq> JStr ''number''
     \<Longrightarrow> spec_item_matches items = (\<lambda>v. True)"
  by (auto simp: spec_item_matches_def fun_eq_iff)

lemma optional_chain: "(if x = JUndefined \<or> x = JNull then JUndefined else js_get x k) = js_get x k"
  by (cases x) auto

lemma prop_zod_type_matches:
  assumes "p \<noteq> JNull" and "p \<noteq> JUndefined"
  shows "\<exists>zt. prop_zod_type p = Inr zt \<and> (\<forall>v. accepts zt v \<longleftrightarrow> spec_type_matches p v)"
proof -
  let ?ty = "js_get p ''type''"
  let ?items = "js_get p ''items''"
  have m: "js_member p ''type'' = Inr ?ty"
    using assms by (simp add: js_member_def)
  consider (s) "?ty = JStr ''string''" | (n) "?ty = JStr ''number''" | (b) "?ty = JStr ''boolean''"
    | (a) "?ty = JStr ''array''"
    | (o) "?ty \<noteq> JStr ''string''" "?ty \<noteq> JStr ''number''" "?ty \<noteq> JStr ''boolean''"
          "?ty \<noteq> JStr ''array''"
    by blast
  then show ?thesis
  proof cases
    case s
    then show ?thesis
      by (simp add: prop_zod_type_def m spec_type_matches_def)
  next
    case n
    then show ?thesis
      by (simp add: prop_zod_type_def m spec_type_matches_def)
  next
    case b
    then show ?thesis
      by (simp add: prop_zod_type_def m spec_type_matches_def)
  next
    case a
    consider (istr) "js_get ?items ''type'' = JStr ''string''"
      | (inum) "js_get ?items ''type'' = JStr ''number''"
      | (ioth) "js_get ?items ''type'' \<noteq> JStr ''string''" "js_get ?items ''type'' \<noteq> JStr ''number''"
      by blast
    then show ?thesis
    proof cases
      case istr
      with a show ?thesis
        by (simp add: prop_zod_type_def m spec_type_matches_def optional_chain Let_def
              accepts_items item_matches_fun split: js_value.splits)
    next
      case inum
      with a show ?thesis
        by (simp add: prop_zod_type_def m spec_type_matches_def optional_chain Let_def
              accepts_items item_matches_fun split: js_value.splits)
    next
      case ioth
      with a show ?thesis
        by (simp add: prop_zod_type_def m spec_type_matches_def optional_chain Let_def
              accepts_items item_matches_fun list_all_iff split: js_value.splits)
    qed
  next
    case o
    then show ?thesis
      by (auto simp: prop_zod_type_def m spec_type_matches_def)
  qed
qed

lemma declared_property_accepted:
  assumes "\<forall>v. accepts zt v \<longleftrightarrow> spec_type_matches p v" and "inc \<longrightarrow> spec_typed p"
  shows "accepts (if \<not> inc then ZOptional zt else zt) v
     \<longleftrightarrow> \<not> ((spec_typed p \<and> v \<noteq> JUndefined \<and> \<not> spec_type_matches p v) \<or> (inc \<and> v = JUndefined))"
  using assms untyped_matches [of p v] typed_undefined [of p]
  by (cases inc) auto

lemma own_property_read: "k \<notin> set object_members \<Longrightarrow> js_get (JObj fs) k = own_get fs k"
  by (simp add: own_get_def split: option.splits)

lemma proto_is_member: "''__proto__'' \<in> set object_members"
  by (simp add: object_members_def)

lemma zodShape_loop_char:
  assumes "distinct (map fst ps)" and "fst ` set ps \<inter> fst ` set acc = {}"
    and "list_all (\<lambda>(k, p). p \<noteq> JNull \<and> p \<noteq> JUndefined \<and> k \<notin> set object_members
                      \<and> (JStr k \<in> set req \<longrightarrow> spec_typed p)) ps"
  shows "\<exists>shape. zodShape_loop (JArr req) ps acc = Inr shape
     \<and> (\<forall>fs. list_all (\<lambda>(k, t). accepts t (js_get (JObj fs) k)) shape
           \<longleftrightarrow> list_all (\<lambda>(k, t). accepts t (js_get (JObj fs) k)) acc
               \<and> \<not> list_ex (\<lambda>(k, p). (spec_typed p \<and> own_get fs k \<noteq> JUndefined
                                         \<and> \<not> spec_type_matches p (own_get fs k))
                                      \<or> (JStr k \<in> set req \<and> own_get fs k = JUndefined)) ps)"
  using assms
proof (induction ps arbitrary: acc)
  case Nil
  then show ?case by simp
next
  case (Cons kp ps)
  obtain k p where kp: "kp = (k, p)"
    by (cases kp)
  from Cons.prems(3) have "p \<noteq> JNull" "p \<noteq> JUndefined" and km: "k \<notin> set object_members"
    and rt: "JStr k \<in> set req \<longrightarrow> spec_typed p"
    by (simp_all add: kp)
  then obtain zt where zt: "prop_zod_type p = Inr zt"
    and m: "\<forall>v. accepts zt v \<longleftrightarrow> spec_type_matches p v"
    using prop_zod_type_matches by blast
  from km proto_is_member have np: "k \<noteq> ''__proto__''"
    by blast
  let ?t = "if \<not> (JStr k \<in> set req) then ZOptional zt else zt"
  let ?acc = "AList.update k ?t acc"
  from Cons.prems(2) have fresh: "k \<notin> fst ` set acc"
    by (auto simp: kp)
  then have upd: "?acc = acc @ [(k, ?t)]"
    by (rule update_fresh)
  have d: "distinct (map fst ps)"
    and l: "list_all (\<lambda>(k, p). p \<noteq> JNull \<and> p \<noteq> JUndefined \<and> k \<notin> set object_members
                      \<and> (JStr k \<in> set req \<longrightarrow> spec_typed p)) ps"
    using Cons.prems(1,3) by simp_all
  have "fst ` set ps \<inter> fst ` set ?acc = {}"
    using Cons.prems(1,2) by (auto simp: upd kp)
  from Cons.IH [OF d this l] obtain shape where
    sh: "zodShape_loop (JArr req) ps ?acc = Inr shape"
    and ch: "\<And>fs. list_all (\<lambda>(k, t). accepts t (js_get (JObj fs) k)) shape
           \<longleftrightarrow> list_all (\<lambda>(k, t). accepts t (js_get (JObj fs) k)) ?acc
               \<and> \<not> list_ex (\<lambda>(k, p). (spec_typed p \<and> own_get fs k \<noteq> JUndefined
                                         \<and> \<not> spec_type_matches p (own_get fs k))
                                      \<or> (JStr k \<in> set req \<and> own_get fs k = JUndefined)) ps"
    by blast
  have "zodShape_loop (JArr req) (kp # ps) acc = Inr shape"
    using np by (simp add: kp zt sh)
  moreover have "list_all (\<lambda>(k, t). accepts t (js_get (JObj fs) k)) shape
           \<longleftrightarrow> list_all (\<lambda>(k, t). accepts t (js_get (JObj fs) k)) acc
               \<and> \<not> list_ex (\<lambda>(k, p). (spec_typed p \<and> own_get fs k \<noteq> JUndefined
                                         \<and> \<not> spec_type_matches p (own_get fs k))
                                      \<or> (JStr k \<in> set req \<and> own_get fs k = JUndefined))
                      (kp # ps)" for fs
  proof -
    have "accepts ?t (js_get (JObj fs) k)
        \<longleftrightarrow> \<not> ((spec_typed p \<and> own_get fs k \<noteq> JUndefined \<and> \<not> spec_type_matches p (own_get fs k))
               \<or> (JStr k \<in> set req \<and> own_get fs k = JUndefined))"
      unfolding own_property_read [OF km]
      by (rule declared_property_accepted [OF m rt])
    then show ?thesis
      unfolding ch upd kp by (auto simp del: js_get.simps)
  qed
  ultimately show ?case
    by blast
qed

lemma spec_rejects_extra:
  assumes "k \<notin> fst ` set (object_entries (js_get schema ''properties''))"
  shows "spec_rejects schema (fs @ [(k, v)]) = spec_rejects schema fs"
proof -
  have "own_get (fs @ [(k, v)]) k' = own_get fs k'"
    if "(k', p) \<in> set (object_entries (js_get schema ''properties''))" for k' p
  proof -
    from that assms have "k' \<noteq> k"
      by force
    then show ?thesis
      by (simp add: own_get_def map_add_def split: option.splits)
  qed
  then show ?thesis
    unfolding spec_rejects_def list_ex_iff
    by (intro bex_cong refl) auto
qed

text \<open>
  C7, as stated, fails twice. The conversion is not total: a property schema that is null
  makes the read of its \<open>type\<close> raise. And a declared property is not always checked:
  for a property declared under the name \<open>__proto__\<close> the assignment into the shape
  adds no key, so the validator has an empty shape and accepts the object whose own
  property \<open>__proto__\<close> is the number 5, although the property is declared with type
  string, is required, and is present with a mismatching value.
\<close>

theorem C7_counterexample:
  "jsonSchemaToZod ex_null_property = Inl TypeError
   \<and> jsonSchemaToZod ex_proto_property = Inr (ZObjectPassthrough [])
   \<and> safeParse_success (ZObjectPassthrough []) (JObj [(''__proto__'', JNum 5)])
   \<and> spec_rejects ex_proto_property [(''__proto__'', JNum 5)]"
  by (simp add: jsonSchemaToZod_def ex_null_property_def ex_proto_property_def
        prop_zod_type_def js_member_def TypeError_def spec_rejects_def spec_typed_def
        spec_type_matches_def own_get_def spec_required_def)

text \<open>
  C7, amended: on an object-shaped schema (type \<open>object\<close>, an object of property
  schemas, \<open>required\<close> absent or a list) in which no property schema is null or
  undefined, no declared name is the name of a member that every object inherits, and
  every required property is declared with one of the types string, number, boolean and
  array, the conversion returns a validator that rejects an object exactly when a
  declared property of one of these types is present with a value of another runtime
  type (for an array, an element that is not of the declared item type string or number
  included), or a required property is missing; nothing is coerced, since a value of
  another type is a mismatch; adding a field under an undeclared key never changes the
  verdict. On anything that has no type \<open>object\<close> or no properties (undefined, a
  non-object, another schema) the conversion returns the validator that accepts every
  object.
\<close>

theorem C7_validator:
  "(spec_object_shaped schema
      \<longrightarrow> (\<exists>z. jsonSchemaToZod schema = Inr z
             \<and> (\<forall>fs. \<not> safeParse_success z (JObj fs) \<longleftrightarrow> spec_rejects schema fs)
             \<and> (\<forall>fs k v. k \<notin> fst ` set (object_entries (js_get schema ''properties''))
                   \<longrightarrow> safeParse_success z (JObj (fs @ [(k, v)]))
                       = safeParse_success z (JObj fs))))
   \<and> (\<not> (js_get schema ''type'' = JStr ''object'' \<and> truthy (js_get schema ''properties''))
      \<longrightarrow> jsonSchemaToZod schema = Inr (ZObjectPassthrough [])
        \<and> (\<forall>fs. safeParse_success (ZObjectPassthrough []) (JObj fs)))"
proof (rule conjI; rule impI)
  assume sh: "spec_object_shaped schema"
  then obtain fs ps where schema: "schema = JObj fs"
    and ty: "js_get schema ''type'' = JStr ''object''"
    and props: "js_get schema ''properties'' = JObj ps"
    and d: "distinct (map fst ps)"
    and l: "list_all (\<lambda>(k, p). p \<noteq> JNull \<and> p \<noteq> JUndefined \<and> k \<notin> set object_members
                       \<and> (spec_required schema k \<longrightarrow> spec_typed p)) ps"
    by (auto simp: spec_object_shaped_def simp del: js_get.simps split: js_value.splits)
  from sh obtain req where req: "(if truthy (js_get schema ''required'')
                         then js_get schema ''required'' else JArr []) = JArr req"
    and sreq: "\<And>k. spec_required schema k \<longleftrightarrow> JStr k \<in> set req"
    by (cases "js_get schema ''required''")
       (auto simp: spec_object_shaped_def spec_required_def schema simp del: js_get.simps
          split: js_value.splits)
  from l have l': "list_all (\<lambda>(k, p). p \<noteq> JNull \<and> p \<noteq> JUndefined \<and> k \<notin> set object_members
                       \<and> (JStr k \<in> set req \<longrightarrow> spec_typed p)) ps"
    unfolding sreq .
  from zodShape_loop_char [OF d _ l', of "[]"] obtain shape where
    loop: "zodShape_loop (JArr req) ps [] = Inr shape"
    and ch: "\<And>fs. list_all (\<lambda>(k, t). accepts t (js_get (JObj fs) k)) shape
           \<longleftrightarrow> \<not> list_ex (\<lambda>(k, p). (spec_typed p \<and> own_get fs k \<noteq> JUndefined
                                         \<and> \<not> spec_type_matches p (own_get fs k))
                                      \<or> (JStr k \<in> set req \<and> own_get fs k = JUndefined)) ps"
    by auto
  have "truthy schema" and "typeof_object schema"
    by (simp_all add: schema)
  then have z: "jsonSchemaToZod schema = Inr (ZObjectPassthrough shape)"
    by (simp add: jsonSchemaToZod_def Let_def ty props req loop)
  have r: "\<not> safeParse_success (ZObjectPassthrough shape) (JObj fs') \<longleftrightarrow> spec_rejects schema fs'"
    for fs'
    using ch [of fs'] by (simp add: spec_rejects_def props sreq del: js_get.simps)
  have "safeParse_success (ZObjectPassthrough shape) (JObj (fs' @ [(k, v)]))
          = safeParse_success (ZObjectPassthrough shape) (JObj fs')"
    if "k \<notin> fst ` set (object_entries (js_get schema ''properties''))" for fs' k v
    using r [of "fs' @ [(k, v)]"] r [of fs'] spec_rejects_extra [OF that, of fs' v]
    by blast
  with z r show "\<exists>z. jsonSchemaToZod schema = Inr z
             \<and> (\<forall>fs. \<not> safeParse_success z (JObj fs) \<longleftrightarrow> spec_rejects schema fs)
             \<and> (\<forall>fs k v. k \<notin> fst ` set (object_entries (js_get schema ''properties''))
                   \<longrightarrow> safeParse_success z (JObj (fs @ [(k, v)]))
                       = safeParse_success z (JObj fs))"
    by blast
next
  assume "\<not> (js_get schema ''type'' = JStr ''object'' \<and> truthy (js_get schema ''properties''))"
  then show "jsonSchemaToZod schema = Inr (ZObjectPassthrough [])
        \<and> (\<forall>fs. safeParse_success (ZObjectPassthrough []) (JObj fs))"
    by (auto simp: jsonSchemaToZod_def simp del: js_get.simps)
qed

theorem C7_validator_witness:
  "(\<exists>z. jsonSchemaToZod ex_person = Inr z
       \<and> \<not> safeParse_success z (JObj [(''name'', JStr ''x''), (''age'', JStr ''12'')])
       \<and> \<not> safeParse_success z (JObj [(''age'', JNum 12)])
       \<and> safeParse_success z (JObj [(''name'', JStr ''x''), (''tags'', JArr [JStr ''a''])])
       \<and> safeParse_success z (JObj ([(''name'', JStr ''x'')] @ [(''extra'', JNum 1)]))
           = safeParse_success z (JObj [(''name'', JStr ''x'')]))
   \<and> jsonSchemaToZod (JStr ''not an object'') = Inr (ZObjectPassthrough [])"
proof -
  have shaped: "spec_object_shaped ex_person"
    by (simp add: spec_object_shaped_def ex_person_def spec_required_def spec_typed_def
          object_members_def)
  have rej: "spec_rejects ex_person [(''name'', JStr ''x''), (''age'', JStr ''12'')]"
    "spec_rejects ex_person [(''age'', JNum 12)]"
    "\<not> spec_rejects ex_person [(''name'', JStr ''x''), (''tags'', JArr [JStr ''a''])]"
    by (simp_all add: spec_rejects_def ex_person_def spec_typed_def spec_type_matches_def
          spec_item_matches_def own_get_def spec_required_def)
  have extra: "''extra'' \<notin> fst ` set (object_entries (js_get ex_person ''properties''))"
    by (simp add: ex_person_def)
  have other: "\<not> (js_get (JStr ''not an object'') ''type'' = JStr ''object''
                   \<and> truthy (js_get (JStr ''not an object'') ''properties''))"
    by simp
  from C7_validator [of ex_person, THEN conjunct1, rule_format, OF shaped] obtain z
    where z: "jsonSchemaToZod ex_person = Inr z"
      and r: "\<And>fs. \<not> safeParse_success z (JObj fs) \<longleftrightarrow> spec_rejects ex_person fs"
      and e: "\<And>fs k v. k \<notin> fst ` set (object_entries (js_get ex_person ''properties''))
            \<Longrightarrow> safeParse_success z (JObj (fs @ [(k, v)])) = safeParse_success z (JObj fs)"
    by blast
  from z r [of "[(''name'', JStr ''x''), (''age'', JStr ''12'')]"] r [of "[(''age'', JNum 12)]"]
    r [of "[(''name'', JStr ''x''), (''tags'', JArr [JStr ''a''])]"] rej
    e [OF extra, of "[(''name'', JStr ''x'')]" "JNum 1"]
  have "\<exists>z. jsonSchemaToZod ex_person = Inr z
       \<and> \<not> safeParse_success z (JObj [(''name'', JStr ''x''), (''age'', JStr ''12'')])
       \<and> \<not> safeParse_success z (JObj [(''age'', JNum 12)])
       \<and> safeParse_success z (JObj [(''name'', JStr ''x''), (''tags'', JArr [JStr ''a''])])
       \<and> safeParse_success z (JObj ([(''name'', JStr ''x'')] @ [(''extra'', JNum 1)]))
           = safeParse_success z (JObj [(''name'', JStr ''x'')])"
    by blast
  with C7_validator [of "JStr ''not an object''", THEN conjunct2, rule_format, OF other]
  show ?thesis
    by blast
qed


end
